theory Spec2Isabelle
  imports Main "HOL-Library.Sublist" "HOL-Library.Multiset"
begin

section \<open>Strings of the host language\<close>

text \<open>
  Strings are lists of characters. Lower-casing is modelled on the ASCII letters
  (\<open>String.prototype.toLowerCase\<close> restricted to ASCII text).
\<close>

definition lower_char :: "char \<Rightarrow> char" where
  "lower_char c =
     (case map_of (zip ''ABCDEFGHIJKLMNOPQRSTUVWXYZ'' ''abcdefghijklmnopqrstuvwxyz'') c of
        None \<Rightarrow> c
      | Some d \<Rightarrow> d)"

definition toLowerCase :: "string \<Rightarrow> string" where
  "toLowerCase s = map lower_char s"

text \<open>\<open>s.startsWith(t)\<close>, \<open>s.endsWith(t)\<close> and \<open>s.includes(t)\<close>.\<close>

fun startsWith :: "string \<Rightarrow> string \<Rightarrow> bool" where
  "startsWith s [] = True"
| "startsWith [] (c # t) = False"
| "startsWith (d # s) (c # t) = (d = c \<and> startsWith s t)"

definition endsWith :: "string \<Rightarrow> string \<Rightarrow> bool" where
  "endsWith s t = startsWith (rev s) (rev t)"

fun str_includes :: "string \<Rightarrow> string \<Rightarrow> bool" where
  "str_includes [] t = (t = [])"
| "str_includes (c # s) t = (startsWith (c # s) t \<or> str_includes s t)"

text \<open>\<open>String(n)\<close> for a non-negative integer, and for an integer.\<close>

definition digit_char :: "nat \<Rightarrow> char" where
  "digit_char d = ''0123456789'' ! d"

fun show_nat :: "nat \<Rightarrow> string" where
  "show_nat n = (if n < 10 then [digit_char n] else show_nat (n div 10) @ [digit_char (n mod 10)])"

declare show_nat.simps [simp del]

definition show_int :: "int \<Rightarrow> string" where
  "show_int i = (if i < 0 then CHR ''-'' # show_nat (nat (- i)) else show_nat (nat i))"

text \<open>\<open>xs.join(sep)\<close> on a list of strings.\<close>

fun join_with :: "string \<Rightarrow> string list \<Rightarrow> string" where
  "join_with glue [] = []"
| "join_with glue [x] = x"
| "join_with glue (x # y # ys) = x @ glue @ join_with glue (y # ys)"

section \<open>The path module (POSIX flavour)\<close>

text \<open>
  \<open>path.sep\<close> is \<open>/\<close>. The functions below follow the POSIX implementation of the
  platform's path module: \<open>basename\<close> and \<open>extname\<close> ignore trailing separators,
  \<open>extname\<close> is empty when the last component has no dot, starts with its only dot, or
  is \<open>..\<close>; \<open>dirname\<close> cuts before the separator that precedes the last component;
  \<open>join\<close> concatenates the non-empty arguments with the separator and normalises.
\<close>

definition sep :: char where
  "sep = CHR ''/''"

definition basename :: "string \<Rightarrow> string" where
  "basename p = rev (takeWhile (\<lambda>c. c \<noteq> sep) (dropWhile (\<lambda>c. c = sep) (rev p)))"

definition extname :: "string \<Rightarrow> string" where
  "extname p =
     (let b = basename p;
          e = rev (takeWhile (\<lambda>c. c \<noteq> CHR ''.'') (rev b))
      in if CHR ''.'' \<notin> set b then []
         else if length e + 1 = length b then []
         else if b = ''..'' then []
         else CHR ''.'' # e)"

text \<open>\<open>path.basename(p, suffix)\<close> for a suffix without separator.\<close>

definition basename_ext :: "string \<Rightarrow> string \<Rightarrow> string" where
  "basename_ext p sfx =
     (let b = basename p
      in if sfx = [] \<or> length p < length sfx then b
         else if sfx = p then []
         else if sfx \<noteq> b \<and> endsWith b sfx then take (length b - length sfx) b
         else b)"

definition dirname :: "string \<Rightarrow> string" where
  "dirname p =
     (case p of
        [] \<Rightarrow> ''.''
      | c # t \<Rightarrow>
          (let r = dropWhile (\<lambda>c. c \<noteq> sep) (dropWhile (\<lambda>c. c = sep) (rev t))
           in case r of
                [] \<Rightarrow> (if c = sep then ''/'' else ''.'')
              | s # r' \<Rightarrow> (if c = sep \<and> r' = [] then ''//'' else c # rev r')))"

fun split_sep :: "string \<Rightarrow> string list" where
  "split_sep [] = [[]]"
| "split_sep (c # s) =
     (if c = sep then [] # split_sep s
      else (case split_sep s of [] \<Rightarrow> [[c]] | x # xs \<Rightarrow> (c # x) # xs))"

text \<open>
  One step of \<open>normalizeString\<close> on the stack of segments kept so far (last segment
  first): empty and \<open>.\<close> segments are dropped, \<open>..\<close> pops a segment that is not
  itself \<open>..\<close> and is kept only above the root of a relative path.
\<close>

definition norm_step :: "bool \<Rightarrow> string \<Rightarrow> string list \<Rightarrow> string list" where
  "norm_step allowAboveRoot seg stack =
     (if seg = [] \<or> seg = ''.'' then stack
      else if seg = ''..'' then
        (case stack of
           [] \<Rightarrow> (if allowAboveRoot then [seg] else [])
         | t # below \<Rightarrow>
             (if t = ''..'' then (if allowAboveRoot then seg # stack else stack) else below))
      else seg # stack)"

definition normalizeString :: "string \<Rightarrow> bool \<Rightarrow> string" where
  "normalizeString p allowAboveRoot =
     join_with [sep] (rev (fold (norm_step allowAboveRoot) (split_sep p) []))"

definition normalize :: "string \<Rightarrow> string" where
  "normalize p =
     (if p = [] then ''.''
      else
        (let isAbsolute = (hd p = sep);
             trailingSeparator = (last p = sep);
             body = normalizeString p (\<not> isAbsolute)
         in if body = [] then (if isAbsolute then ''/'' else if trailingSeparator then ''./'' else ''.'')
            else (if isAbsolute then [sep] else []) @ body @ (if trailingSeparator then [sep] else [])))"

definition join :: "string list \<Rightarrow> string" where
  "join parts =
     (let joined = join_with [sep] (filter (\<lambda>a. a \<noteq> []) parts)
      in if joined = [] then ''.'' else normalize joined)"

section \<open>Data model\<close>

datatype condition_type =
  Extension | Path | Size | NamePattern | NameContains | NameStartsWith | NameEndsWith
  | SizeGreaterThanMb

datatype operator = Equals | Contains | Matches | GreaterThan | LessThan | InList

text \<open>A condition value is a string, a number (modelled as an integer) or a list of strings.\<close>

datatype cond_value = VString string | VNumber int | VArray "string list"

record condition =
  ctype :: condition_type
  coperator :: operator
  cvalue :: cond_value

datatype action_type = Move | Copy | Rename | Compress

datatype quality = Low | Medium | High

record compress_config =
  quality :: quality
  archiveOriginal :: "bool option"

record action_config =
  destination :: string
  pattern :: "string option"
  createDirs :: "bool option"
  compress :: "compress_config option"

record action =
  atype :: action_type
  config :: action_config

datatype trigger_type = File_created | File_modified | Screenshot | Manual

record trigger =
  ttype :: trigger_type
  folder :: "string option"

record rule =
  rule_id :: string
  rule_name :: string
  enabled :: bool
  priority :: int
  tags :: "string list"
  trigger :: trigger
  conditions :: "condition list"
  actions :: "action list"
  createdAt :: nat
  updatedAt :: nat

section \<open>Condition evaluator\<close>

text \<open>
  What the evaluator takes from its host: \<open>regexp_i src\<close> is the test function of
  \<open>new RegExp(src, 'i')\<close>, or \<open>None\<close> when the constructor throws; \<open>statSync_size p\<close>
  is the size in bytes reported by \<open>statSync(p)\<close>, or \<open>None\<close> when it throws;
  \<open>mb_exceeds bytes v\<close> is the numeric comparison \<open>bytes / (1024 * 1024) > Number(v)\<close>.
\<close>

record host =
  regexp_i :: "string \<Rightarrow> (string \<Rightarrow> bool) option"
  statSync_size :: "string \<Rightarrow> nat option"
  mb_exceeds :: "nat \<Rightarrow> string \<Rightarrow> bool"

text \<open>\<open>String(condition.value)\<close>.\<close>

fun String_of :: "cond_value \<Rightarrow> string" where
  "String_of (VString s) = s"
| "String_of (VNumber n) = show_int n"
| "String_of (VArray vs) = join_with '','' vs"

definition matchValue :: "host \<Rightarrow> string \<Rightarrow> condition \<Rightarrow> bool" where
  "matchValue h v c =
     (let testValue = toLowerCase v
      in case coperator c of
           Equals \<Rightarrow> testValue = toLowerCase (String_of (cvalue c))
         | Contains \<Rightarrow> str_includes testValue (toLowerCase (String_of (cvalue c)))
         | Matches \<Rightarrow>
             (case regexp_i h (String_of (cvalue c)) of
                None \<Rightarrow> False
              | Some test \<Rightarrow> test testValue)
         | InList \<Rightarrow>
             (case cvalue c of
                VArray vs \<Rightarrow> list_ex (\<lambda>v. toLowerCase v = testValue) vs
              | _ \<Rightarrow> False)
         | _ \<Rightarrow> False)"

definition evaluateCondition :: "host \<Rightarrow> condition \<Rightarrow> string \<Rightarrow> bool" where
  "evaluateCondition h c filePath =
     (let fileName = basename filePath;
          fileNameWithoutExt = basename_ext filePath (extname filePath);
          ext = toLowerCase (extname filePath);
          conditionValue = toLowerCase (String_of (cvalue c))
      in case ctype c of
           Extension \<Rightarrow>
             (let cleanExt = (if startsWith ext ''.'' then drop 1 ext else ext)
              in matchValue h cleanExt c)
         | NamePattern \<Rightarrow> matchValue h fileName c
         | NameContains \<Rightarrow> str_includes (toLowerCase fileNameWithoutExt) conditionValue
         | NameStartsWith \<Rightarrow> startsWith (toLowerCase fileNameWithoutExt) conditionValue
         | NameEndsWith \<Rightarrow> endsWith (toLowerCase fileNameWithoutExt) conditionValue
         | SizeGreaterThanMb \<Rightarrow>
             (case statSync_size h filePath of
                None \<Rightarrow> False
              | Some bytes \<Rightarrow> mb_exceeds h bytes conditionValue)
         | Path \<Rightarrow> matchValue h filePath c
         | Size \<Rightarrow> False)"

definition evaluateConditions :: "host \<Rightarrow> condition list \<Rightarrow> string \<Rightarrow> bool" where
  "evaluateConditions h cs filePath = list_all (\<lambda>c. evaluateCondition h c filePath) cs"

section \<open>Rule selector\<close>

text \<open>
  \<open>Array.prototype.sort\<close> with a comparator is stable and sorts the array in place:
  an element goes in front of the first element it does not compare greater than.
\<close>

fun insert_by :: "('a \<Rightarrow> 'a \<Rightarrow> int) \<Rightarrow> 'a \<Rightarrow> 'a list \<Rightarrow> 'a list" where
  "insert_by cmp x [] = [x]"
| "insert_by cmp x (y # ys) = (if cmp x y \<le> 0 then x # y # ys else y # insert_by cmp x ys)"

definition js_sort :: "('a \<Rightarrow> 'a \<Rightarrow> int) \<Rightarrow> 'a list \<Rightarrow> 'a list" where
  "js_sort cmp xs = foldr (insert_by cmp) xs []"

text \<open>The comparator \<open>(a, b) => (b.priority || 0) - (a.priority || 0)\<close>.\<close>

definition or_zero :: "int \<Rightarrow> int" where
  "or_zero n = (if n = 0 then 0 else n)"

definition by_priority :: "rule \<Rightarrow> rule \<Rightarrow> int" where
  "by_priority a b = or_zero (priority b) - or_zero (priority a)"

text \<open>
  \<open>findMatchingRules\<close> returns the filtered copy and, as second component, the contents
  of the caller's array after the call (\<open>sort\<close> works on the array it is given,
  \<open>filter\<close> builds a new one).
\<close>

definition findMatchingRules :: "host \<Rightarrow> rule list \<Rightarrow> string \<Rightarrow> rule list \<times> rule list" where
  "findMatchingRules h rules filePath =
     (let sorted = js_sort by_priority rules
      in (filter (\<lambda>r. evaluateConditions h (conditions r) filePath) sorted, sorted))"

text \<open>Two condition values are the same up to letter case.\<close>

fun same_modulo_case :: "cond_value \<Rightarrow> cond_value \<Rightarrow> bool" where
  "same_modulo_case (VString a) (VString b) = (toLowerCase a = toLowerCase b)"
| "same_modulo_case (VNumber n) (VNumber m) = (n = m)"
| "same_modulo_case (VArray xs) (VArray ys) = (map toLowerCase xs = map toLowerCase ys)"
| "same_modulo_case _ _ = False"

subsection \<open>Example inputs\<close>

text \<open>A host whose regular expressions never compile and whose files cannot be stat'ed.\<close>

definition plain_host :: host where
  "plain_host = \<lparr>regexp_i = (\<lambda>src. None), statSync_size = (\<lambda>p. None), mb_exceeds = (\<lambda>n v. False)\<rparr>"

definition sample_rule :: "string \<Rightarrow> int \<Rightarrow> condition list \<Rightarrow> rule" where
  "sample_rule n p cs =
     \<lparr>rule_id = n, rule_name = n, enabled = True, priority = p, tags = [],
      trigger = \<lparr>ttype = File_created, folder = Some ''{downloads}''\<rparr>,
      conditions = cs, actions = [], createdAt = 0, updatedAt = 0\<rparr>"

section \<open>Template expander\<close>

text \<open>
  \<open>String.prototype.replaceAll(searchString, replaceString)\<close>. The replacement text
  is subject to the substitution patterns of the language: \<open>$$\<close> stands for a dollar
  sign, \<open>$&\<close> for the matched text, \<open>$`\<close> for the text before the match and \<open>$'\<close> for
  the text after it; as a string search has no capture groups, any other use of the
  dollar sign stands for itself.
\<close>

fun getSubstitution :: "string \<Rightarrow> string \<Rightarrow> string \<Rightarrow> string \<Rightarrow> string" where
  "getSubstitution matched pre post [] = []"
| "getSubstitution matched pre post [c] = [c]"
| "getSubstitution matched pre post (c # d # r) =
     (if c = CHR ''$'' \<and> d = CHR ''$'' then CHR ''$'' # getSubstitution matched pre post r
      else if c = CHR ''$'' \<and> d = CHR ''&'' then matched @ getSubstitution matched pre post r
      else if c = CHR ''$'' \<and> d = CHR 0x60 then pre @ getSubstitution matched pre post r
      else if c = CHR ''$'' \<and> d = CHR 0x27 then post @ getSubstitution matched pre post r
      else c # getSubstitution matched pre post (d # r))"

text \<open>
  The matches are found from left to right and do not overlap; \<open>pre\<close> is the part of
  the subject already passed. An empty search string matches at every position.
\<close>

function replaceAll_from :: "string \<Rightarrow> string \<Rightarrow> string \<Rightarrow> string \<Rightarrow> string" where
  "replaceAll_from pat rep pre [] =
     (if pat = [] then getSubstitution pat pre [] rep else [])"
| "replaceAll_from pat rep pre (c # cs) =
     (if pat = [] then
        getSubstitution pat pre (c # cs) rep @ c # replaceAll_from pat rep (pre @ [c]) cs
      else if startsWith (c # cs) pat then
        getSubstitution pat pre (drop (length pat) (c # cs)) rep
          @ replaceAll_from pat rep (pre @ pat) (drop (length pat) (c # cs))
      else c # replaceAll_from pat rep (pre @ [c]) cs)"
  by pat_completeness auto
termination
proof (relation "measure (\<lambda>(pat, rep, pre, rest). length rest)")
  fix pat rep :: string and pre :: string and c :: char and cs :: string
  assume "pat \<noteq> []"
  then have "0 < length pat" by simp
  then show "((pat, rep, pre @ pat, drop (length pat) (c # cs)), pat, rep, pre, c # cs)
               \<in> measure (\<lambda>(pat, rep, pre, rest). length rest)"
    by auto
qed auto

definition replaceAll :: "string \<Rightarrow> string \<Rightarrow> string \<Rightarrow> string" where
  "replaceAll pat rep s = replaceAll_from pat rep [] s"

text \<open>
  \<open>sanitizeForPath\<close>: the characters \<open>< > : " / \ | ? *\<close> become \<open>-\<close>, every run of
  white space (here: the ASCII white-space characters) becomes one blank, the result is
  trimmed and cut to 50 characters.
\<close>

definition illegal_char :: "char \<Rightarrow> bool" where
  "illegal_char c \<longleftrightarrow> c \<in> set [CHR ''<'', CHR ''>'', CHR '':'', CHR 0x22, CHR ''/'', CHR 0x5C,
                                   CHR ''|'', CHR ''?'', CHR ''*'']"

definition is_space :: "char \<Rightarrow> bool" where
  "is_space c \<longleftrightarrow> c \<in> set [CHR '' '', CHR 0x09, CHR 0x0A, CHR 0x0B, CHR 0x0C, CHR 0x0D]"

function collapse_spaces :: "string \<Rightarrow> string" where
  "collapse_spaces [] = []"
| "collapse_spaces (c # cs) =
     (if is_space c then CHR '' '' # collapse_spaces (dropWhile is_space cs)
      else c # collapse_spaces cs)"
  by pat_completeness auto
termination
  by (relation "measure length") (auto simp: less_Suc_eq_le length_dropWhile_le)

definition trim :: "string \<Rightarrow> string" where
  "trim s = rev (dropWhile is_space (rev (dropWhile is_space s)))"

definition sanitizeForPath :: "string \<Rightarrow> string" where
  "sanitizeForPath input =
     take 50 (trim (collapse_spaces (map (\<lambda>c. if illegal_char c then CHR ''-'' else c) input)))"

text \<open>
  Of the configuration only the path table is read here; it is kept in the order in
  which the entries of the object are enumerated.
\<close>

record flowSquireConfig =
  paths :: "(string \<times> string) list"

record metadata =
  appName :: "string option"
  domain :: "string option"

text \<open>The loop over the configured paths, each replacing its \<open>{key}\<close> placeholder.\<close>

definition replace_path_variables :: "string \<Rightarrow> flowSquireConfig \<Rightarrow> string" where
  "replace_path_variables template cfg =
     fold (\<lambda>(key, v) result. replaceAll (''{'' @ key @ ''}'') v result) (paths cfg) template"

text \<open>
  The texts put in for \<open>{app}\<close> and \<open>{domain}\<close>: a missing or empty field is falsy.
\<close>

definition app_text :: "metadata \<Rightarrow> string" where
  "app_text m =
     (case appName m of
        None \<Rightarrow> ''Unknown''
      | Some a \<Rightarrow> if a \<noteq> [] then sanitizeForPath a else ''Unknown'')"

definition domain_text :: "metadata \<Rightarrow> string" where
  "domain_text m =
     (case domain m of
        None \<Rightarrow> ''General''
      | Some d \<Rightarrow> if d \<noteq> [] then sanitizeForPath d else ''General'')"

definition replaceTemplateVariables ::
    "string \<Rightarrow> flowSquireConfig \<Rightarrow> metadata option \<Rightarrow> string" where
  "replaceTemplateVariables template cfg md =
     (let result = replace_path_variables template cfg
      in case md of
           None \<Rightarrow> result
         | Some m \<Rightarrow>
             replaceAll ''{domain}'' (domain_text m) (replaceAll ''{app}'' (app_text m) result))"




section \<open>Category detection\<close>

definition detectPdfCategory :: "string \<Rightarrow> string" where
  "detectPdfCategory fileName =
     (let lowerFileName = toLowerCase fileName
      in if str_includes lowerFileName ''invoice'' then ''Invoices''
         else if str_includes lowerFileName ''bill'' then ''Invoices''
         else if str_includes lowerFileName ''payment'' then ''Invoices''
         else if str_includes lowerFileName ''receipt'' then ''Invoices''
         else if str_includes lowerFileName ''tax'' then ''Invoices''
         else if str_includes lowerFileName ''bank'' then ''Finance''
         else if str_includes lowerFileName ''statement'' then ''Finance''
         else if str_includes lowerFileName ''transaction'' then ''Finance''
         else if str_includes lowerFileName ''finance'' then ''Finance''
         else if str_includes lowerFileName ''credit'' then ''Finance''
         else if str_includes lowerFileName ''debit'' then ''Finance''
         else if str_includes lowerFileName ''notes'' then ''Study''
         else if str_includes lowerFileName ''note'' then ''Study''
         else if str_includes lowerFileName ''lecture'' then ''Study''
         else if str_includes lowerFileName ''study'' then ''Study''
         else if str_includes lowerFileName ''class'' then ''Study''
         else if str_includes lowerFileName ''course'' then ''Study''
         else if str_includes lowerFileName ''assignment'' then ''Study''
         else if str_includes lowerFileName ''homework'' then ''Study''
         else if str_includes lowerFileName ''exam'' then ''Study''
         else ''Unsorted'')"

section \<open>Rename patterns\<close>

text \<open>The local-time components of \<open>new Date()\<close>; the month counts from 0.\<close>

record clock =
  year :: nat
  month :: nat
  day :: nat
  hours :: nat
  minutes :: nat
  seconds :: nat

text \<open>\<open>String(n).padStart(2, '0')\<close>.\<close>

definition pad2 :: "nat \<Rightarrow> string" where
  "pad2 n = (let s = show_nat n in if length s < 2 then replicate (2 - length s) CHR ''0'' @ s else s)"

definition monthNames :: "string list" where
  "monthNames = [''January'', ''February'', ''March'', ''April'', ''May'', ''June'',
                 ''July'', ''August'', ''September'', ''October'', ''November'', ''December'']"

definition placeholders :: "string \<Rightarrow> clock \<Rightarrow> (string \<times> string) list" where
  "placeholders sourcePath now =
     [(''{filename}'', basename_ext sourcePath (extname sourcePath)),
      (''{ext}'', extname sourcePath),
      (''{YYYY}'', show_nat (year now)),
      (''{MM}'', pad2 (month now + 1)),
      (''{Month}'', (if month now < 12 then monthNames ! month now else ''undefined'')),
      (''{DD}'', pad2 (day now)),
      (''{HH}'', pad2 (hours now)),
      (''{mm}'', pad2 (minutes now)),
      (''{ss}'', pad2 (seconds now))]"

text \<open>The loop that expands the placeholders of a pattern, in the order of the table.\<close>

definition expand_pattern :: "string \<Rightarrow> string \<Rightarrow> clock \<Rightarrow> string" where
  "expand_pattern pat sourcePath now =
     fold (\<lambda>(key, v) result. replaceAll key v result) (placeholders sourcePath now) pat"

definition applyPattern ::
    "string \<Rightarrow> string \<Rightarrow> string \<Rightarrow> metadata option \<Rightarrow> clock \<Rightarrow> string" where
  "applyPattern dest pat sourcePath md now =
     (let ext = extname sourcePath;
          pathParts = split_sep dest;
          destHasFilename = (length pathParts = 1 \<and> length (extname dest) > 0);
          destDir = (if destHasFilename then dirname dest else dest);
          result = expand_pattern pat sourcePath now;
          result = (if \<not> endsWith result ext then result @ ext else result)
      in join [destDir, result])"

subsection \<open>Example inputs for templates and patterns\<close>


definition sample_clock :: clock where
  "sample_clock = \<lparr>year = 2026, month = 1, day = 1, hours = 9, minutes = 5, seconds = 0\<rparr>"

section \<open>The system the executor runs on\<close>

text \<open>
  File-system calls, the child process and the clock are primitives of the platform.
  They are parameters of the model: each takes the state of the world \<open>'w\<close> and returns
  its outcome, and the new state where it can change the world. A failing call yields
  the error it throws.
\<close>

record fs_error =
  code :: string
  message :: string

text \<open>
  How a spawned process ends for its parent: an \<open>error\<close> event with the error's
  message when it could not be spawned, or a \<open>close\<close> event with the exit code (none
  when a signal ended it) after the text written to its standard error stream.
\<close>

datatype spawn_outcome = SpawnError string | Closed "int option" string

text \<open>
  \<open>fs_readConfig\<close> stands for reading and parsing the configuration file: the entries
  of its path table (none when the file has no such table), or \<open>None\<close> when reading,
  parsing or merging throws.
\<close>

record 'w system =
  fs_access :: "string \<Rightarrow> 'w \<Rightarrow> bool"
  fs_mkdir :: "string \<Rightarrow> 'w \<Rightarrow> fs_error option \<times> 'w"
  fs_rename :: "string \<Rightarrow> string \<Rightarrow> 'w \<Rightarrow> fs_error option \<times> 'w"
  fs_copyFile :: "string \<Rightarrow> string \<Rightarrow> 'w \<Rightarrow> fs_error option \<times> 'w"
  fs_readConfig :: "string \<Rightarrow> 'w \<Rightarrow> (string \<times> string) list option"
  fs_writeFile :: "string \<Rightarrow> flowSquireConfig \<Rightarrow> 'w \<Rightarrow> fs_error option \<times> 'w"
  spawn :: "string \<Rightarrow> string list \<Rightarrow> 'w \<Rightarrow> spawn_outcome \<times> 'w"
  date_now :: "'w \<Rightarrow> clock"
  os_platform :: string
  os_homedir :: string

section \<open>Configuration\<close>

definition DB_DIR :: string where
  "DB_DIR = ''.flowsquire''"

definition CONFIG_FILE :: string where
  "CONFIG_FILE = join [DB_DIR, ''config.json'']"

definition DEFAULT_CONFIG :: "'w system \<Rightarrow> flowSquireConfig" where
  "DEFAULT_CONFIG sys =
     \<lparr>paths =
        [(''downloads'', join [os_homedir sys, ''Downloads'']),
         (''documents'', join [os_homedir sys, ''Documents'']),
         (''desktop'', join [os_homedir sys, ''Desktop'']),
         (''pictures'', join [os_homedir sys, ''Pictures'']),
         (''screenshots'', join [os_homedir sys, ''Downloads'', ''Screenshots'']),
         (''videos'', join [os_homedir sys, ''Movies'']),
         (''music'', join [os_homedir sys, ''Music'']),
         (''home'', os_homedir sys)]\<rparr>"

text \<open>Object spread: a key already present keeps its place and takes the new value.\<close>

fun set_property :: "string \<Rightarrow> string \<Rightarrow> (string \<times> string) list \<Rightarrow> (string \<times> string) list" where
  "set_property k v [] = [(k, v)]"
| "set_property k v ((k', v') # ps) =
     (if k' = k then (k', v) # ps else (k', v') # set_property k v ps)"

definition spread :: "(string \<times> string) list \<Rightarrow> (string \<times> string) list \<Rightarrow> (string \<times> string) list" where
  "spread base extra = fold (\<lambda>(k, v) acc. set_property k v acc) extra base"

text \<open>\<open>ensureDbDir\<close> swallows whatever \<open>mkdir\<close> throws.\<close>

definition ensureDbDir :: "'w system \<Rightarrow> 'w \<Rightarrow> 'w" where
  "ensureDbDir sys w = snd (fs_mkdir sys DB_DIR w)"

definition saveConfig :: "'w system \<Rightarrow> flowSquireConfig \<Rightarrow> 'w \<Rightarrow> fs_error option \<times> 'w" where
  "saveConfig sys cfg w = fs_writeFile sys CONFIG_FILE cfg (ensureDbDir sys w)"

definition loadConfig :: "'w system \<Rightarrow> 'w \<Rightarrow> (fs_error + flowSquireConfig) \<times> 'w" where
  "loadConfig sys w =
     (let w1 = ensureDbDir sys w
      in case fs_readConfig sys CONFIG_FILE w1 of
           Some parsed \<Rightarrow> (Inr \<lparr>paths = spread (paths (DEFAULT_CONFIG sys)) parsed\<rparr>, w1)
         | None \<Rightarrow>
             (case saveConfig sys (DEFAULT_CONFIG sys) w1 of
                (Some e, w2) \<Rightarrow> (Inl e, w2)
              | (None, w2) \<Rightarrow> (Inr (DEFAULT_CONFIG sys), w2)))"

section \<open>Collision resolution\<close>

definition collision_candidate :: "string \<Rightarrow> nat \<Rightarrow> string" where
  "collision_candidate filePath counter =
     join [dirname filePath,
           basename_ext filePath (extname filePath) @ ''-'' @ show_nat counter @ extname filePath]"

text \<open>The probing loop; it does not return while every candidate is taken.\<close>

partial_function (option) probe :: "'w system \<Rightarrow> 'w \<Rightarrow> string \<Rightarrow> nat \<Rightarrow> string option" where
  "probe sys w filePath counter =
     (if fs_access sys (collision_candidate filePath counter) w
      then probe sys w filePath (counter + 1)
      else Some (collision_candidate filePath counter))"

declare probe.simps [code]

definition resolveCollision :: "'w system \<Rightarrow> string \<Rightarrow> bool \<Rightarrow> 'w \<Rightarrow> string option" where
  "resolveCollision sys filePath dryRun w =
     (if dryRun then Some filePath
      else if fs_access sys filePath w then probe sys w filePath 1
      else Some filePath)"

section \<open>Compression adapter\<close>

definition getGhostscriptCommand :: "'w system \<Rightarrow> string" where
  "getGhostscriptCommand sys = (if os_platform sys = ''win32'' then ''gswin64c'' else ''gs'')"

definition show_code :: "int option \<Rightarrow> string" where
  "show_code c = (case c of None \<Rightarrow> ''null'' | Some n \<Rightarrow> show_int n)"

definition gs_arguments :: "string \<Rightarrow> string \<Rightarrow> quality \<Rightarrow> string list" where
  "gs_arguments sourcePath destinationPath q =
     (let pdfSettings = (if q = Low then ''/screen'' else if q = High then ''/printer'' else ''/ebook'')
      in [''-sDEVICE=pdfwrite'', ''-dCompatibilityLevel=1.4'', ''-dPDFSETTINGS='' @ pdfSettings,
          ''-dNOPAUSE'', ''-dQUIET'', ''-dBATCH'', ''-sOutputFile='' @ destinationPath, sourcePath])"

text \<open>\<open>compressPdf\<close> resolves (\<open>Inr\<close>) or rejects with the message of an error (\<open>Inl\<close>).\<close>

definition compressPdf ::
    "'w system \<Rightarrow> string \<Rightarrow> string \<Rightarrow> quality \<Rightarrow> 'w \<Rightarrow> (string + unit) \<times> 'w" where
  "compressPdf sys sourcePath destinationPath q w =
     (if \<not> fs_access sys sourcePath w then (Inl (''Source file not found: '' @ sourcePath), w)
      else
        (case spawn sys (getGhostscriptCommand sys) (gs_arguments sourcePath destinationPath q) w of
           (SpawnError m, w') \<Rightarrow>
             (Inl (''Failed to spawn Ghostscript: '' @ m
                   @ ''. Please install Ghostscript (brew install ghostscript)''), w')
         | (Closed c errorOutput, w') \<Rightarrow>
             (if c = Some 0 then (Inr (), w')
              else (Inl (''Ghostscript failed with code '' @ show_code c @ '': '' @ errorOutput), w'))))"

section \<open>Action executor\<close>

datatype status = Pending | Success | Failed

record actionResult =
  r_action :: action
  r_status :: status
  r_sourcePath :: "string option"
  r_destinationPath :: "string option"
  r_error :: "string option"

definition succeeded :: "action \<Rightarrow> string \<Rightarrow> string \<Rightarrow> actionResult" where
  "succeeded a sourcePath destinationPath =
     \<lparr>r_action = a, r_status = Success, r_sourcePath = Some sourcePath,
      r_destinationPath = Some destinationPath, r_error = None\<rparr>"

definition failed :: "action \<Rightarrow> string \<Rightarrow> string \<Rightarrow> actionResult" where
  "failed a sourcePath msg =
     \<lparr>r_action = a, r_status = Failed, r_sourcePath = Some sourcePath,
      r_destinationPath = None, r_error = Some msg\<rparr>"

text \<open>A pattern is applied when it is present and not the empty string.\<close>

definition has_pattern :: "action \<Rightarrow> bool" where
  "has_pattern a = (case pattern (config a) of None \<Rightarrow> False | Some p \<Rightarrow> p \<noteq> [])"

text \<open>
  The destination path as computed before the directory is created and collisions are
  resolved.
\<close>

definition destination_for ::
    "action \<Rightarrow> string \<Rightarrow> flowSquireConfig \<Rightarrow> metadata option \<Rightarrow> clock \<Rightarrow> string" where
  "destination_for a sourcePath cfg md now =
     (let fileName = basename sourcePath;
          category = detectPdfCategory fileName;
          destinationPath = replaceTemplateVariables (destination (config a)) cfg md;
          destinationPath = replaceAll ''{category}'' category destinationPath;
          destinationPath =
            (if extname destinationPath = [] \<and> \<not> has_pattern a
             then join [destinationPath, fileName] else destinationPath)
      in if has_pattern a
         then applyPattern destinationPath (the (pattern (config a))) sourcePath md now
         else destinationPath)"

text \<open>Creating the destination directory; an \<open>EEXIST\<close> error is ignored.\<close>

definition ensure_directory ::
    "'w system \<Rightarrow> action \<Rightarrow> string \<Rightarrow> bool \<Rightarrow> 'w \<Rightarrow> fs_error option \<times> 'w" where
  "ensure_directory sys a destinationPath dryRun w =
     (if createDirs (config a) \<noteq> Some False \<and> \<not> dryRun then
        (case fs_mkdir sys (dirname destinationPath) w of
           (Some e, w') \<Rightarrow> (if code e \<noteq> ''EEXIST'' then (Some e, w') else (None, w'))
         | (None, w') \<Rightarrow> (None, w'))
      else (None, w))"

text \<open>The operation of the action on the file system; \<open>Inl\<close> carries the message thrown.\<close>

definition perform ::
    "'w system \<Rightarrow> action \<Rightarrow> string \<Rightarrow> string \<Rightarrow> 'w \<Rightarrow> (string + unit) \<times> 'w" where
  "perform sys a sourcePath destinationPath w =
     (case atype a of
        Move \<Rightarrow>
          (case fs_rename sys sourcePath destinationPath w of
             (Some e, w') \<Rightarrow> (Inl (message e), w') | (None, w') \<Rightarrow> (Inr (), w'))
      | Copy \<Rightarrow>
          (case fs_copyFile sys sourcePath destinationPath w of
             (Some e, w') \<Rightarrow> (Inl (message e), w') | (None, w') \<Rightarrow> (Inr (), w'))
      | Rename \<Rightarrow>
          (case fs_rename sys sourcePath destinationPath w of
             (Some e, w') \<Rightarrow> (Inl (message e), w') | (None, w') \<Rightarrow> (Inr (), w'))
      | Compress \<Rightarrow>
          compressPdf sys sourcePath destinationPath
            (case compress (config a) of None \<Rightarrow> Medium | Some c \<Rightarrow> quality c) w)"

text \<open>
  \<open>executeAction\<close>: every error thrown inside is caught and reported as a failed
  result. The value \<open>None\<close> stands for a call that does not return.
\<close>

definition executeAction ::
    "'w system \<Rightarrow> action \<Rightarrow> string \<Rightarrow> bool \<Rightarrow> metadata option \<Rightarrow> 'w
       \<Rightarrow> (actionResult \<times> 'w) option" where
  "executeAction sys a sourcePath dryRun md w =
     (case loadConfig sys w of
        (Inl e, w1) \<Rightarrow> Some (failed a sourcePath (message e), w1)
      | (Inr cfg, w1) \<Rightarrow>
          (let destinationPath = destination_for a sourcePath cfg md (date_now sys w1)
           in case ensure_directory sys a destinationPath dryRun w1 of
                (Some e, w2) \<Rightarrow> Some (failed a sourcePath (message e), w2)
              | (None, w2) \<Rightarrow>
                  (case resolveCollision sys destinationPath dryRun w2 of
                     None \<Rightarrow> None
                   | Some destinationPath \<Rightarrow>
                       (if \<not> dryRun then
                          (case perform sys a sourcePath destinationPath w2 of
                             (Inl msg, w3) \<Rightarrow> Some (failed a sourcePath msg, w3)
                           | (Inr u, w3) \<Rightarrow> Some (succeeded a sourcePath destinationPath, w3))
                        else Some (succeeded a sourcePath destinationPath, w2)))))"

text \<open>
  The path handed to the next action: the destination of a result that succeeded with
  a non-empty destination path, the current path otherwise.
\<close>

definition next_path :: "string \<Rightarrow> actionResult \<Rightarrow> string" where
  "next_path currentPath result =
     (case r_destinationPath result of
        Some d \<Rightarrow> if r_status result = Success \<and> d \<noteq> [] then d else currentPath
      | None \<Rightarrow> currentPath)"

fun executeActions ::
    "'w system \<Rightarrow> action list \<Rightarrow> string \<Rightarrow> bool \<Rightarrow> metadata option \<Rightarrow> 'w
       \<Rightarrow> (actionResult list \<times> 'w) option" where
  "executeActions sys [] currentPath dryRun md w = Some ([], w)"
| "executeActions sys (a # rest) currentPath dryRun md w =
     (case executeAction sys a currentPath dryRun md w of
        None \<Rightarrow> None
      | Some (result, w') \<Rightarrow>
          (case executeActions sys rest (next_path currentPath result) dryRun md w' of
             None \<Rightarrow> None
           | Some (results, w'') \<Rightarrow> Some (result # results, w'')))"

section \<open>An in-memory system\<close>

text \<open>
  A small instance of the system, used to run the executor on concrete inputs: the
  world is the list of paths that exist, the parsed configuration file (if any), the
  way the compression tool ends, and the time.
\<close>

record mem_world =
  entries :: "string list"
  config_paths :: "(string \<times> string) list option"
  ghostscript :: spawn_outcome
  wall_clock :: clock

definition no_entry :: "string \<Rightarrow> fs_error" where
  "no_entry p = \<lparr>code = ''ENOENT'', message = ''ENOENT: no such file or directory, '' @ p\<rparr>"

definition mem_system :: "mem_world system" where
  "mem_system =
     \<lparr>fs_access = (\<lambda>p w. p \<in> set (entries w)),
      fs_mkdir = (\<lambda>p w. (None, w\<lparr>entries := List.insert p (entries w)\<rparr>)),
      fs_rename = (\<lambda>a b w.
        if a \<in> set (entries w)
        then (None, w\<lparr>entries := List.insert b (removeAll a (entries w))\<rparr>)
        else (Some (no_entry a), w)),
      fs_copyFile = (\<lambda>a b w.
        if a \<in> set (entries w)
        then (None, w\<lparr>entries := List.insert b (entries w)\<rparr>)
        else (Some (no_entry a), w)),
      fs_readConfig = (\<lambda>p w. if p \<in> set (entries w) then config_paths w else None),
      fs_writeFile = (\<lambda>p cfg w.
        (None, w\<lparr>entries := List.insert p (entries w), config_paths := Some (paths cfg)\<rparr>)),
      spawn = (\<lambda>cmd args w.
        (if ghostscript w = Closed (Some 0) []
         then (ghostscript w, w\<lparr>entries := List.insert (drop 13 (args ! 6)) (entries w)\<rparr>)
         else (ghostscript w, w))),
      date_now = wall_clock,
      os_platform = ''linux'',
      os_homedir = ''/home/u''\<rparr>"

definition files :: "string list \<Rightarrow> mem_world" where
  "files ps =
     \<lparr>entries = ps, config_paths = None, ghostscript = SpawnError ''spawn gs ENOENT'',
      wall_clock = sample_clock\<rparr>"

section \<open>Reference behaviour of the action chain\<close>

text \<open>
  The input paths of a chain as the specification describes them: the first action gets
  the source path, and each later action gets the destination of the most recent
  successful action before it (the source path when none has succeeded).
\<close>

fun chain_inputs :: "string \<Rightarrow> actionResult list \<Rightarrow> string list" where
  "chain_inputs cur [] = []"
| "chain_inputs cur (r # rs) =
     cur # chain_inputs
             (case r_destinationPath r of
                Some d \<Rightarrow> if r_status r = Success then d else cur
              | None \<Rightarrow> cur) rs"

text \<open>The world after the configuration has been loaded \<open>n\<close> times.\<close>

fun config_loads :: "'w system \<Rightarrow> nat \<Rightarrow> 'w \<Rightarrow> 'w" where
  "config_loads sys 0 w = w"
| "config_loads sys (Suc n) w = config_loads sys n (snd (loadConfig sys w))"

text \<open>
  The results a dry run is to report: for each action the destination computed by the
  resolution pipeline from the current path, or the failure to load the configuration.
\<close>

fun dry_run_results ::
    "'w system \<Rightarrow> action list \<Rightarrow> string \<Rightarrow> metadata option \<Rightarrow> 'w \<Rightarrow> actionResult list" where
  "dry_run_results sys [] cur md w = []"
| "dry_run_results sys (a # rest) cur md w =
     (case loadConfig sys w of
        (Inl e, w1) \<Rightarrow> failed a cur (message e) # dry_run_results sys rest cur md w1
      | (Inr cfg, w1) \<Rightarrow>
          succeeded a cur (destination_for a cur cfg md (date_now sys w1))
            # dry_run_results sys rest (destination_for a cur cfg md (date_now sys w1)) md w1)"

subsection \<open>Example actions\<close>

definition move_to :: "string \<Rightarrow> action" where
  "move_to dest =
     \<lparr>atype = Move,
      config = \<lparr>destination = dest, pattern = None, createDirs = None, compress = None\<rparr>\<rparr>"

definition compress_to :: "string \<Rightarrow> action" where
  "compress_to dest =
     \<lparr>atype = Compress,
      config = \<lparr>destination = dest, pattern = None, createDirs = None,
                compress = Some \<lparr>quality = Low, archiveOriginal = None\<rparr>\<rparr>\<rparr>"

section \<open>Facts about strings and paths\<close>

lemma startsWith_prefix: "startsWith s t \<longleftrightarrow> prefix t s"
  by (induction s t rule: startsWith.induct) auto

lemma endsWith_suffix: "endsWith s t \<longleftrightarrow> suffix t s"
  by (simp add: endsWith_def startsWith_prefix suffix_to_prefix)

lemma str_includes_sublist: "str_includes s t \<longleftrightarrow> sublist t s"
  by (induction s) (auto simp: startsWith_prefix sublist_Cons_right)

lemma lower_char_sep: "lower_char c = CHR ''/'' \<longleftrightarrow> c = CHR ''/''"
  by (auto simp: lower_char_def split: option.splits if_splits)

lemma lower_char_dot: "lower_char c = CHR ''.'' \<longleftrightarrow> c = CHR ''.''"
  by (auto simp: lower_char_def split: option.splits if_splits)

lemma takeWhile_lower_sep:
  "takeWhile (\<lambda>c. c \<noteq> sep) (map lower_char s) = map lower_char (takeWhile (\<lambda>c. c \<noteq> sep) s)"
  by (induction s) (auto simp: sep_def lower_char_sep)

lemma dropWhile_lower_sep:
  "dropWhile (\<lambda>c. c = sep) (map lower_char s) = map lower_char (dropWhile (\<lambda>c. c = sep) s)"
  by (induction s) (auto simp: sep_def lower_char_sep)

lemma takeWhile_lower_dot:
  "takeWhile (\<lambda>c. c \<noteq> CHR ''.'') (map lower_char s) = map lower_char (takeWhile (\<lambda>c. c \<noteq> CHR ''.'') s)"
  by (induction s) (auto simp: lower_char_dot)

lemma basename_lower: "basename (toLowerCase p) = toLowerCase (basename p)"
  by (simp add: basename_def toLowerCase_def rev_map takeWhile_lower_sep dropWhile_lower_sep)

lemma lower_dotdot: "map lower_char b = ''..'' \<longleftrightarrow> b = ''..''"
  by (cases b; cases "tl b"; auto simp: lower_char_dot)

lemma lower_char_dot': "CHR ''.'' = lower_char c \<longleftrightarrow> c = CHR ''.''"
  using lower_char_dot [of c] by auto

lemma dot_in_lower: "CHR ''.'' \<in> lower_char ` set b \<longleftrightarrow> CHR ''.'' \<in> set b"
  by (auto simp: lower_char_dot' image_iff)

lemma extname_lower: "extname (toLowerCase p) = toLowerCase (extname p)"
  unfolding extname_def basename_lower
  by (simp add: toLowerCase_def Let_def rev_map takeWhile_lower_dot lower_dotdot dot_in_lower lower_char_dot')

lemma extname_shape:
  assumes "extname p \<noteq> []"
  shows "\<exists>st. st \<noteq> [] \<and> basename p = st @ extname p"
proof -
  let ?b = "basename p"
  let ?e = "rev (takeWhile (\<lambda>c. c \<noteq> CHR ''.'') (rev ?b))"
  from assms have dot: "CHR ''.'' \<in> set ?b" and len: "length ?e + 1 \<noteq> length ?b"
    and ext: "extname p = CHR ''.'' # ?e"
    by (auto simp: extname_def Let_def split: if_splits)
  let ?d = "dropWhile (\<lambda>c. c \<noteq> CHR ''.'') (rev ?b)"
  from dot have ne: "?d \<noteq> []" by simp
  then have "\<not> (hd ?d \<noteq> CHR ''.'')" by (rule hd_dropWhile)
  with ne obtain rest where d: "?d = CHR ''.'' # rest" by (cases ?d) auto
  have "rev ?b = takeWhile (\<lambda>c. c \<noteq> CHR ''.'') (rev ?b) @ ?d" by simp
  then have "rev (rev ?b) = rev (takeWhile (\<lambda>c. c \<noteq> CHR ''.'') (rev ?b) @ CHR ''.'' # rest)"
    using d by simp
  then have b: "?b = rev rest @ CHR ''.'' # ?e" by simp
  have "rev rest \<noteq> []"
  proof
    assume "rev rest = []"
    with b have "length ?b = length ?e + 1" by (metis append_Nil length_Cons Suc_eq_plus1)
    with len show False by simp
  qed
  with b ext show ?thesis by auto
qed

lemma stem_eq:
  "basename_ext p (extname p) = take (length (basename p) - length (extname p)) (basename p)"
proof (cases "extname p = []")
  case True
  then show ?thesis by (simp add: basename_ext_def)
next
  case False
  then obtain st where st: "st \<noteq> []" "basename p = st @ extname p"
    using extname_shape by blast
  have "length (basename p) \<le> length p"
    by (simp add: basename_def) (metis length_dropWhile_le length_rev length_takeWhile_le le_trans)
  moreover from st have "length (extname p) < length (basename p)"
    by (metis length_append length_greater_0_conv less_add_same_cancel2)
  ultimately have l: "length (extname p) < length p" "extname p \<noteq> p" "extname p \<noteq> basename p"
    by auto
  have "endsWith (basename p) (extname p)"
    using st by (simp add: endsWith_suffix suffix_def)
  with l False show ?thesis by (simp add: basename_ext_def Let_def)
qed

lemma stem_lower:
  "basename_ext (toLowerCase p) (extname (toLowerCase p)) = toLowerCase (basename_ext p (extname p))"
proof -
  have "basename_ext (toLowerCase p) (extname (toLowerCase p)) =
        take (length (basename (toLowerCase p)) - length (extname (toLowerCase p))) (basename (toLowerCase p))"
    by (rule stem_eq)
  also have "\<dots> = toLowerCase (take (length (basename p) - length (extname p)) (basename p))"
    by (simp add: basename_lower extname_lower) (simp add: toLowerCase_def take_map)
  finally show ?thesis by (simp only: stem_eq)
qed

section \<open>Facts about the rule selector\<close>

lemma set_insert_by: "set (insert_by cmp x xs) = insert x (set xs)"
  by (induction xs) auto

lemma mset_insert_by: "mset (insert_by cmp x xs) = add_mset x (mset xs)"
  by (induction xs) auto

lemma mset_js_sort: "mset (js_sort cmp xs) = mset xs"
  by (induction xs) (auto simp: js_sort_def mset_insert_by)

lemma set_js_sort: "set (js_sort cmp xs) = set xs"
  by (metis mset_js_sort set_mset_mset)

lemma by_priority_le: "by_priority a b \<le> 0 \<longleftrightarrow> priority b \<le> priority a"
  by (simp add: by_priority_def or_zero_def)

lemma sorted_insert_by:
  "sorted_wrt (\<lambda>a b. priority b \<le> priority a) xs \<Longrightarrow>
   sorted_wrt (\<lambda>a b. priority b \<le> priority a) (insert_by by_priority x xs)"
  by (induction xs) (auto simp: by_priority_le set_insert_by)

lemma sorted_js_sort: "sorted_wrt (\<lambda>a b. priority b \<le> priority a) (js_sort by_priority xs)"
  by (induction xs) (auto simp: js_sort_def sorted_insert_by)

lemma filter_insert_by:
  "filter (\<lambda>r. priority r = p) (insert_by by_priority x xs) = filter (\<lambda>r. priority r = p) (x # xs)"
  by (induction xs) (auto simp: by_priority_le)

lemma filter_js_sort:
  "filter (\<lambda>r. priority r = p) (js_sort by_priority xs) = filter (\<lambda>r. priority r = p) xs"
  by (induction xs) (auto simp: js_sort_def filter_insert_by)

lemma insert_by_sorted_id:
  "sorted_wrt (\<lambda>a b. priority b \<le> priority a) (x # xs) \<Longrightarrow> insert_by by_priority x xs = x # xs"
  by (cases xs) (auto simp: by_priority_le)

lemma js_sort_sorted_id:
  "sorted_wrt (\<lambda>a b. priority b \<le> priority a) xs \<Longrightarrow> js_sort by_priority xs = xs"
proof (induction xs)
  case Nil
  then show ?case by (simp add: js_sort_def)
next
  case (Cons x xs)
  then have "js_sort by_priority xs = xs" by simp
  then have "js_sort by_priority (x # xs) = insert_by by_priority x xs"
    by (simp add: js_sort_def)
  with Cons.prems show ?case by (simp only: insert_by_sorted_id)
qed

lemma evaluateConditions_all:
  "evaluateConditions h cs f \<longleftrightarrow> (\<forall>c \<in> set cs. evaluateCondition h c f)"
  by (simp add: evaluateConditions_def list_all_iff)

lemma lower_join_comma:
  "toLowerCase (join_with '','' xs) = join_with '','' (map toLowerCase xs)"
  by (induction "'',''" xs rule: join_with.induct) (auto simp: toLowerCase_def lower_char_def)

lemma same_modulo_case_String:
  "same_modulo_case v w \<Longrightarrow> toLowerCase (String_of v) = toLowerCase (String_of w)"
  by (induction v w rule: same_modulo_case.induct) (auto simp: lower_join_comma)

lemma list_ex_lower:
  "list_ex (\<lambda>v. toLowerCase v = t) xs = list_ex (\<lambda>v. v = t) (map toLowerCase xs)"
  by (induction xs) auto

lemma matchValue_value_ci:
  assumes "coperator c \<noteq> Matches" "same_modulo_case v w"
  shows "matchValue h x (c\<lparr>cvalue := v\<rparr>) = matchValue h x (c\<lparr>cvalue := w\<rparr>)"
proof -
  have s: "toLowerCase (String_of v) = toLowerCase (String_of w)"
    using assms(2) by (rule same_modulo_case_String)
  have l: "(case v of VArray vs \<Rightarrow> list_ex (\<lambda>v. toLowerCase v = t) vs | _ \<Rightarrow> False) =
           (case w of VArray vs \<Rightarrow> list_ex (\<lambda>v. toLowerCase v = t) vs | _ \<Rightarrow> False)" for t
    using assms(2) by (induction v w rule: same_modulo_case.induct) (auto simp: list_ex_lower)
  show ?thesis using assms(1) s l
    by (cases "coperator c") (simp_all add: matchValue_def)
qed

lemma evaluateCondition_value_ci:
  assumes "coperator c \<noteq> Matches" "same_modulo_case v w"
  shows "evaluateCondition h (c\<lparr>cvalue := v\<rparr>) f = evaluateCondition h (c\<lparr>cvalue := w\<rparr>) f"
proof -
  have s: "toLowerCase (String_of v) = toLowerCase (String_of w)"
    using assms(2) by (rule same_modulo_case_String)
  show ?thesis using s matchValue_value_ci [OF assms]
    by (cases "ctype c") (simp_all add: evaluateCondition_def Let_def)
qed

lemma matchValue_subject_ci:
  "toLowerCase x = toLowerCase y \<Longrightarrow> matchValue h x c = matchValue h y c"
  by (simp add: matchValue_def)

lemma evaluateCondition_path_ci:
  assumes "ctype c \<noteq> SizeGreaterThanMb" "toLowerCase f = toLowerCase g"
  shows "evaluateCondition h c f = evaluateCondition h c g"
proof -
  have b: "toLowerCase (basename f) = toLowerCase (basename g)"
    using assms(2) by (metis basename_lower)
  have e: "toLowerCase (extname f) = toLowerCase (extname g)"
    using assms(2) by (metis extname_lower)
  have s: "toLowerCase (basename_ext f (extname f)) = toLowerCase (basename_ext g (extname g))"
    using assms(2) by (metis stem_lower)
  have mp: "matchValue h f c = matchValue h g c"
    using assms(2) by (rule matchValue_subject_ci)
  have mb: "matchValue h (basename f) c = matchValue h (basename g) c"
    using b by (rule matchValue_subject_ci)
  show ?thesis using assms(1) mp mb e s
    by (cases "ctype c") (simp_all add: evaluateCondition_def Let_def)
qed


section \<open>Rule selection\<close>

lemma mem_findMatchingRules:
  "R \<in> set (fst (findMatchingRules h rules F)) \<longleftrightarrow>
   R \<in> set rules \<and> (\<forall>c \<in> set (conditions R). evaluateCondition h c F)"
  by (simp add: findMatchingRules_def Let_def set_js_sort evaluateConditions_all)

text \<open>
  C4. A rule of the list is returned by the selector exactly when every one of its
  conditions matches the file path (the conjunction of the individual conditions); a
  rule without conditions always matches; the evaluation ignores letter case, both in
  the file path (for every condition that does not stat the file) and in the condition's
  value (for every operator but the regular expression, whose source text is handed to
  the host as it is).
\<close>

theorem findMatchingRules_selects:
  "(R \<in> set rules \<longrightarrow>
      (R \<in> set (fst (findMatchingRules h rules F)) \<longleftrightarrow>
       (\<forall>c \<in> set (conditions R). evaluateCondition h c F)))
   \<and> (R \<in> set (fst (findMatchingRules h rules F)) \<longrightarrow> R \<in> set rules)
   \<and> (evaluateConditions h cs F \<longleftrightarrow> (\<forall>c \<in> set cs. evaluateCondition h c F))
   \<and> evaluateConditions h [] F
   \<and> (R \<in> set rules \<and> conditions R = [] \<longrightarrow> R \<in> set (fst (findMatchingRules h rules F)))
   \<and> (ctype c \<noteq> SizeGreaterThanMb \<and> toLowerCase F = toLowerCase G \<longrightarrow>
        evaluateCondition h c F = evaluateCondition h c G)
   \<and> (coperator c \<noteq> Matches \<and> same_modulo_case v w \<longrightarrow>
        evaluateCondition h (c\<lparr>cvalue := v\<rparr>) F = evaluateCondition h (c\<lparr>cvalue := w\<rparr>) F)"
proof (intro conjI impI)
  show "evaluateConditions h cs F \<longleftrightarrow> (\<forall>c \<in> set cs. evaluateCondition h c F)"
    by (rule evaluateConditions_all)
  show "evaluateConditions h [] F"
    by (simp add: evaluateConditions_def)
  show "evaluateCondition h c F = evaluateCondition h c G"
    if "ctype c \<noteq> SizeGreaterThanMb \<and> toLowerCase F = toLowerCase G"
    using that by (metis evaluateCondition_path_ci)
  show "evaluateCondition h (c\<lparr>cvalue := v\<rparr>) F = evaluateCondition h (c\<lparr>cvalue := w\<rparr>) F"
    if "coperator c \<noteq> Matches \<and> same_modulo_case v w"
    using that by (metis evaluateCondition_value_ci)
qed (simp_all add: mem_findMatchingRules)



theorem findMatchingRules_selects_witness:
  "sample_rule ''pdf'' 100 [\<lparr>ctype = Extension, coperator = Equals, cvalue = VString ''pdf''\<rparr>]
     \<in> set (fst (findMatchingRules plain_host
          [sample_rule ''pdf'' 100 [\<lparr>ctype = Extension, coperator = Equals, cvalue = VString ''pdf''\<rparr>]]
          ''/in/Report.PDF''))
   \<and> evaluateCondition plain_host \<lparr>ctype = Extension, coperator = Equals, cvalue = VString ''pdf''\<rparr> ''/in/Report.PDF''
     = evaluateCondition plain_host \<lparr>ctype = Extension, coperator = Equals, cvalue = VString ''pdf''\<rparr> ''/in/report.pdf''
   \<and> evaluateCondition plain_host \<lparr>ctype = Extension, coperator = Equals, cvalue = VString ''pdf''\<rparr> ''/in/Report.PDF''
     = evaluateCondition plain_host \<lparr>ctype = Extension, coperator = Equals, cvalue = VString ''PDF''\<rparr> ''/in/Report.PDF''
   \<and> sample_rule ''all'' 1 [] \<in> set (fst (findMatchingRules plain_host [sample_rule ''all'' 1 []] ''/in/notes.txt''))"
proof -
  let ?c = "\<lparr>ctype = Extension, coperator = Equals, cvalue = VString ''pdf''\<rparr>"
  let ?R = "sample_rule ''pdf'' 100 [?c]"
  have a: "?R \<in> set [?R]" by simp
  have b: "\<forall>c \<in> set (conditions ?R). evaluateCondition plain_host c ''/in/Report.PDF''"
    by (simp add: sample_rule_def plain_host_def evaluateCondition_def matchValue_def extname_def
          basename_def sep_def toLowerCase_def lower_char_def Let_def)
  have c: "ctype ?c \<noteq> SizeGreaterThanMb \<and> toLowerCase ''/in/Report.PDF'' = toLowerCase ''/in/report.pdf''"
    by (simp add: toLowerCase_def lower_char_def)
  have d: "coperator ?c \<noteq> Matches \<and> same_modulo_case (VString ''pdf'') (VString ''PDF'')"
    by (simp add: toLowerCase_def lower_char_def)
  from findMatchingRules_selects
    [of ?R "[?R]" plain_host "''/in/Report.PDF''" "[]" ?c "''/in/report.pdf''" "VString ''pdf''" "VString ''PDF''"]
    a b c d
  have first: "?R \<in> set (fst (findMatchingRules plain_host [?R] ''/in/Report.PDF''))
     \<and> evaluateCondition plain_host ?c ''/in/Report.PDF'' = evaluateCondition plain_host ?c ''/in/report.pdf''
     \<and> evaluateCondition plain_host ?c ''/in/Report.PDF''
       = evaluateCondition plain_host \<lparr>ctype = Extension, coperator = Equals, cvalue = VString ''PDF''\<rparr> ''/in/Report.PDF''"
    by auto
  have e: "sample_rule ''all'' 1 [] \<in> set [sample_rule ''all'' 1 []] \<and> conditions (sample_rule ''all'' 1 []) = []"
    by (simp add: sample_rule_def)
  have second: "sample_rule ''all'' 1 [] \<in> set (fst (findMatchingRules plain_host [sample_rule ''all'' 1 []] ''/in/notes.txt''))"
    by (rule mp [OF conjunct1 [OF conjunct2 [OF conjunct2 [OF conjunct2 [OF conjunct2
          [OF findMatchingRules_selects]]]]] e])
  from first second show ?thesis by blast
qed

text \<open>
  C5. The rules returned by the selector are in descending priority order, and rules of
  equal priority keep their original relative order; matching rules with priorities
  100, 500, 300 come back as 500, 300, 100.
\<close>

theorem findMatchingRules_priority_order:
  "sorted_wrt (\<lambda>a b. priority b \<le> priority a) (fst (findMatchingRules h rules F))
   \<and> filter (\<lambda>r. priority r = p) (fst (findMatchingRules h rules F))
     = filter (\<lambda>r. priority r = p) (filter (\<lambda>r. evaluateConditions h (conditions r) F) rules)
   \<and> map priority (fst (findMatchingRules h
        [sample_rule ''a'' 100 [], sample_rule ''b'' 500 [], sample_rule ''c'' 300 []] F))
     = [500, 300, 100]"
proof (intro conjI)
  show "sorted_wrt (\<lambda>a b. priority b \<le> priority a) (fst (findMatchingRules h rules F))"
    by (simp add: findMatchingRules_def Let_def sorted_wrt_filter sorted_js_sort)
  have "filter (\<lambda>r. priority r = p) (fst (findMatchingRules h rules F))
      = filter (\<lambda>r. evaluateConditions h (conditions r) F)
          (filter (\<lambda>r. priority r = p) (js_sort by_priority rules))"
    by (simp add: findMatchingRules_def Let_def conj_commute)
  also have "\<dots> = filter (\<lambda>r. evaluateConditions h (conditions r) F)
          (filter (\<lambda>r. priority r = p) rules)"
    by (simp only: filter_js_sort)
  finally show "filter (\<lambda>r. priority r = p) (fst (findMatchingRules h rules F))
     = filter (\<lambda>r. priority r = p) (filter (\<lambda>r. evaluateConditions h (conditions r) F) rules)"
    by (simp add: conj_commute)
  show "map priority (fst (findMatchingRules h
        [sample_rule ''a'' 100 [], sample_rule ''b'' 500 [], sample_rule ''c'' 300 []] F))
     = [500, 300, 100]"
    by (simp add: findMatchingRules_def Let_def js_sort_def by_priority_def or_zero_def
          sample_rule_def evaluateConditions_def)
qed

theorem findMatchingRules_priority_order_witness:
  "sorted_wrt (\<lambda>a b. priority b \<le> priority a)
     (fst (findMatchingRules plain_host
        [sample_rule ''a'' 50 [], sample_rule ''b'' 50 [], sample_rule ''c'' 300 []] ''x.pdf''))
   \<and> map rule_id (filter (\<lambda>r. priority r = 50) (fst (findMatchingRules plain_host
        [sample_rule ''a'' 50 [], sample_rule ''b'' 50 [], sample_rule ''c'' 300 []] ''x.pdf'')))
     = [''a'', ''b'']"
  using findMatchingRules_priority_order
    [of plain_host "[sample_rule ''a'' 50 [], sample_rule ''b'' 50 [], sample_rule ''c'' 300 []]"
        "''x.pdf''" 50]
  by (simp add: sample_rule_def evaluateConditions_def)

text \<open>
  C8 (as stated). The selector leaves its input list unmodified. This fails: the list
  is sorted in place, so a list that is not in descending priority order is reordered.
\<close>

theorem findMatchingRules_reorders_input:
  "snd (findMatchingRules plain_host [sample_rule ''a'' 100 [], sample_rule ''b'' 500 []] ''x.pdf'')
     \<noteq> [sample_rule ''a'' 100 [], sample_rule ''b'' 500 []]"
  by (simp add: findMatchingRules_def Let_def js_sort_def by_priority_def or_zero_def sample_rule_def)

text \<open>
  C8 (amended). After the call the input list holds the same rules, none changed, dropped
  or added, sorted in place by descending priority with rules of equal priority in
  their original relative order; the list is unchanged exactly when it already was in
  descending priority order.
\<close>

theorem findMatchingRules_input_after:
  "mset (snd (findMatchingRules h rules F)) = mset rules
   \<and> sorted_wrt (\<lambda>a b. priority b \<le> priority a) (snd (findMatchingRules h rules F))
   \<and> filter (\<lambda>r. priority r = p) (snd (findMatchingRules h rules F))
     = filter (\<lambda>r. priority r = p) rules
   \<and> (snd (findMatchingRules h rules F) = rules
        \<longleftrightarrow> sorted_wrt (\<lambda>a b. priority b \<le> priority a) rules)"
proof (intro conjI)
  show "snd (findMatchingRules h rules F) = rules
        \<longleftrightarrow> sorted_wrt (\<lambda>a b. priority b \<le> priority a) rules"
  proof
    assume "snd (findMatchingRules h rules F) = rules"
    then have "js_sort by_priority rules = rules"
      by (simp add: findMatchingRules_def Let_def)
    then show "sorted_wrt (\<lambda>a b. priority b \<le> priority a) rules"
      using sorted_js_sort [of rules] by simp
  next
    assume "sorted_wrt (\<lambda>a b. priority b \<le> priority a) rules"
    then show "snd (findMatchingRules h rules F) = rules"
      by (simp add: findMatchingRules_def Let_def js_sort_sorted_id)
  qed
qed (simp_all add: findMatchingRules_def Let_def mset_js_sort sorted_js_sort filter_js_sort)

theorem findMatchingRules_input_after_witness:
  "snd (findMatchingRules plain_host [sample_rule ''b'' 500 [], sample_rule ''a'' 100 []] ''x.pdf'')
     = [sample_rule ''b'' 500 [], sample_rule ''a'' 100 []]"
  using findMatchingRules_input_after
    [of plain_host "[sample_rule ''b'' 500 [], sample_rule ''a'' 100 []]" "''x.pdf''" 0]
  by (simp add: sample_rule_def)

text \<open>
  C10 (as stated). A condition with operator \<open>greater_than\<close> evaluates to false.
  This fails for the condition types that never look at the operator.
\<close>

theorem evaluateCondition_ignores_operator:
  "coperator \<lparr>ctype = NameContains, coperator = GreaterThan, cvalue = VString ''invoice''\<rparr>
     = GreaterThan
   \<and> evaluateCondition plain_host
       \<lparr>ctype = NameContains, coperator = GreaterThan, cvalue = VString ''invoice''\<rparr>
       ''invoice.pdf''"
  by (simp add: evaluateCondition_def extname_def basename_def basename_ext_def endsWith_def
        sep_def toLowerCase_def lower_char_def Let_def)

text \<open>
  C10 (amended). A condition of type \<open>size\<close> evaluates to false for every path, and so
  does a condition with operator \<open>greater_than\<close> or \<open>less_than\<close> whose type consults
  the operator (\<open>extension\<close>, \<open>name_pattern\<close>, \<open>path\<close>); a rule containing such a
  condition is never selected. For the types \<open>name_contains\<close>, \<open>name_starts_with\<close>,
  \<open>name_ends_with\<close> and \<open>size_greater_than_mb\<close> the operator is not consulted: the
  condition evaluates to the same value whatever operator it carries.
\<close>

theorem evaluateCondition_unhandled:
  "(ctype c = Size \<longrightarrow> \<not> evaluateCondition h c F)
   \<and> ((coperator c = GreaterThan \<or> coperator c = LessThan)
        \<and> (ctype c = Extension \<or> ctype c = NamePattern \<or> ctype c = Path)
        \<longrightarrow> \<not> evaluateCondition h c F)
   \<and> (c \<in> set (conditions R)
        \<and> (ctype c = Size
            \<or> (coperator c = GreaterThan \<or> coperator c = LessThan)
               \<and> (ctype c = Extension \<or> ctype c = NamePattern \<or> ctype c = Path))
        \<longrightarrow> R \<notin> set (fst (findMatchingRules h rules F)))
   \<and> (ctype c = NameContains \<or> ctype c = NameStartsWith \<or> ctype c = NameEndsWith
          \<or> ctype c = SizeGreaterThanMb
        \<longrightarrow> evaluateCondition h (c\<lparr>coperator := op\<rparr>) F = evaluateCondition h c F)"
proof -
  have a: "\<not> evaluateCondition h c F" if "ctype c = Size"
    using that by (simp add: evaluateCondition_def)
  have b: "\<not> evaluateCondition h c F"
    if "coperator c = GreaterThan \<or> coperator c = LessThan"
       "ctype c = Extension \<or> ctype c = NamePattern \<or> ctype c = Path"
    using that by (auto simp: evaluateCondition_def matchValue_def Let_def)
  have d: "evaluateCondition h (c\<lparr>coperator := op\<rparr>) F = evaluateCondition h c F"
    if "ctype c = NameContains \<or> ctype c = NameStartsWith \<or> ctype c = NameEndsWith
          \<or> ctype c = SizeGreaterThanMb"
    using that by (auto simp: evaluateCondition_def Let_def)
  show ?thesis using a b d by (auto simp: mem_findMatchingRules)
qed

theorem evaluateCondition_unhandled_witness:
  "\<not> evaluateCondition plain_host \<lparr>ctype = Size, coperator = GreaterThan, cvalue = VNumber 8\<rparr> ''big.pdf''
   \<and> \<not> evaluateCondition plain_host \<lparr>ctype = Extension, coperator = LessThan, cvalue = VString ''pdf''\<rparr> ''big.pdf''
   \<and> sample_rule ''r'' 1 [\<lparr>ctype = Size, coperator = GreaterThan, cvalue = VNumber 8\<rparr>]
       \<notin> set (fst (findMatchingRules plain_host
            [sample_rule ''r'' 1 [\<lparr>ctype = Size, coperator = GreaterThan, cvalue = VNumber 8\<rparr>]] ''big.pdf''))
   \<and> evaluateCondition plain_host
        \<lparr>ctype = NameStartsWith, coperator = LessThan, cvalue = VString ''inv''\<rparr> ''invoice.pdf''"
proof -
  let ?s = "\<lparr>ctype = NameStartsWith, coperator = Equals, cvalue = VString ''inv''\<rparr>"
  have first: "\<not> evaluateCondition plain_host \<lparr>ctype = Size, coperator = GreaterThan, cvalue = VNumber 8\<rparr> ''big.pdf''
   \<and> \<not> evaluateCondition plain_host \<lparr>ctype = Extension, coperator = LessThan, cvalue = VString ''pdf''\<rparr> ''big.pdf''
   \<and> sample_rule ''r'' 1 [\<lparr>ctype = Size, coperator = GreaterThan, cvalue = VNumber 8\<rparr>]
       \<notin> set (fst (findMatchingRules plain_host
            [sample_rule ''r'' 1 [\<lparr>ctype = Size, coperator = GreaterThan, cvalue = VNumber 8\<rparr>]] ''big.pdf''))"
    using evaluateCondition_unhandled
      [of "\<lparr>ctype = Size, coperator = GreaterThan, cvalue = VNumber 8\<rparr>" plain_host "''big.pdf''"
          "sample_rule ''r'' 1 [\<lparr>ctype = Size, coperator = GreaterThan, cvalue = VNumber 8\<rparr>]"
          "[sample_rule ''r'' 1 [\<lparr>ctype = Size, coperator = GreaterThan, cvalue = VNumber 8\<rparr>]]"]
    evaluateCondition_unhandled
      [of "\<lparr>ctype = Extension, coperator = LessThan, cvalue = VString ''pdf''\<rparr>" plain_host "''big.pdf''"]
    by (simp add: sample_rule_def)
  have t: "ctype ?s = NameContains \<or> ctype ?s = NameStartsWith \<or> ctype ?s = NameEndsWith
          \<or> ctype ?s = SizeGreaterThanMb"
    by simp
  have e: "evaluateCondition plain_host ?s ''invoice.pdf''"
    by (simp add: evaluateCondition_def extname_def basename_def basename_ext_def endsWith_def
          sep_def toLowerCase_def lower_char_def Let_def)
  have "evaluateCondition plain_host (?s\<lparr>coperator := LessThan\<rparr>) ''invoice.pdf''
          = evaluateCondition plain_host ?s ''invoice.pdf''"
    by (rule mp [OF conjunct2 [OF conjunct2 [OF conjunct2 [OF evaluateCondition_unhandled]]] t])
  with e have second: "evaluateCondition plain_host
        \<lparr>ctype = NameStartsWith, coperator = LessThan, cvalue = VString ''inv''\<rparr> ''invoice.pdf''"
    by simp
  from first second show ?thesis by blast
qed

section \<open>Template expansion\<close>










section \<open>Rename patterns\<close>

lemma split_sep_not_Nil: "split_sep s \<noteq> []"
  by (induction s) (auto split: list.splits)

lemma length_split_sep: "length (split_sep s) = Suc (length (filter (\<lambda>c. c = sep) s))"
  by (induction s) (auto simp: split_sep_not_Nil split: list.splits)

lemma single_segment: "length (split_sep s) = Suc 0 \<longleftrightarrow> sep \<notin> set s"
  by (auto simp: length_split_sep filter_empty_conv)

lemma scan_no_sep:
  "sep \<notin> set xs \<Longrightarrow> dropWhile (\<lambda>c. c \<noteq> sep) (dropWhile (\<lambda>c. c = sep) xs) = []"
  by (cases xs) auto

lemma dirname_no_sep:
  assumes "sep \<notin> set p"
  shows "dirname p = ''.''"
proof (cases p)
  case Nil
  then show ?thesis by (simp add: dirname_def)
next
  case (Cons c t)
  with assms have n: "sep \<notin> set (rev t)" and c: "c \<noteq> sep" by auto
  from n have d: "dropWhile (\<lambda>c. c \<noteq> sep) (dropWhile (\<lambda>c. c = sep) (rev t)) = []"
    by (rule scan_no_sep)
  have "dirname (c # t) = ''.''"
    by (simp only: dirname_def list.case Let_def d c if_False)
  with Cons show ?thesis by simp
qed

text \<open>
  C7 (as stated). The expanded pattern replaces the file name component of the
  destination, that is, it is joined onto the destination's directory portion. This
  fails for a destination of several segments that names a file: the whole destination
  is taken as the directory.
\<close>

theorem applyPattern_keeps_file_name:
  "applyPattern ''out/old.pdf'' ''{filename}_v2'' ''/in/report.pdf'' None sample_clock
     = ''out/old.pdf/report_v2.pdf''
   \<and> applyPattern ''out/old.pdf'' ''{filename}_v2'' ''/in/report.pdf'' None sample_clock
     \<noteq> join [dirname ''out/old.pdf'', ''report_v2.pdf'']"
  by code_simp

text \<open>
  C7 (amended). The expanded pattern, with the source file's extension appended unless
  the expansion already ends with it, is joined onto the destination itself whenever
  the destination contains a separator or has no extension; only for a destination
  that is a single segment with an extension is it joined onto the destination's
  directory portion (which then is the current directory), replacing the file name.
  The pattern \<open>{filename}_{YYYY}-{MM}-{DD}\<close> applied to \<open>report.pdf\<close> on 2026-02-01 expands
  to \<open>report_2026-02-01\<close> and gives the file name \<open>report_2026-02-01.pdf\<close>.
\<close>

theorem applyPattern_destination:
  "(sep \<in> set dest \<or> extname dest = [] \<longrightarrow>
      applyPattern dest pat src md now =
        join [dest, (if endsWith (expand_pattern pat src now) (extname src)
                     then expand_pattern pat src now
                     else expand_pattern pat src now @ extname src)])
   \<and> (sep \<notin> set dest \<and> extname dest \<noteq> [] \<longrightarrow>
        dirname dest = ''.'' \<and>
        applyPattern dest pat src md now =
          join [dirname dest, (if endsWith (expand_pattern pat src now) (extname src)
                               then expand_pattern pat src now
                               else expand_pattern pat src now @ extname src)])
   \<and> endsWith (if endsWith (expand_pattern pat src now) (extname src)
                then expand_pattern pat src now
                else expand_pattern pat src now @ extname src) (extname src)
   \<and> expand_pattern ''{filename}_{YYYY}-{MM}-{DD}'' ''report.pdf'' sample_clock = ''report_2026-02-01''
   \<and> applyPattern ''/out'' ''{filename}_{YYYY}-{MM}-{DD}'' ''report.pdf'' md sample_clock
       = ''/out/report_2026-02-01.pdf''"
proof (intro conjI impI)
  show "applyPattern dest pat src md now =
        join [dest, (if endsWith (expand_pattern pat src now) (extname src)
                     then expand_pattern pat src now
                     else expand_pattern pat src now @ extname src)]"
    if "sep \<in> set dest \<or> extname dest = []"
    using that by (auto simp: applyPattern_def Let_def single_segment)
  show "dirname dest = ''.''" if "sep \<notin> set dest \<and> extname dest \<noteq> []"
    using that by (simp add: dirname_no_sep)
  show "applyPattern dest pat src md now =
          join [dirname dest, (if endsWith (expand_pattern pat src now) (extname src)
                               then expand_pattern pat src now
                               else expand_pattern pat src now @ extname src)]"
    if "sep \<notin> set dest \<and> extname dest \<noteq> []"
    using that by (auto simp: applyPattern_def Let_def single_segment)
  show "endsWith (if endsWith (expand_pattern pat src now) (extname src)
                then expand_pattern pat src now
                else expand_pattern pat src now @ extname src) (extname src)"
    by (auto simp: endsWith_suffix intro: suffixI)
  show e: "expand_pattern ''{filename}_{YYYY}-{MM}-{DD}'' ''report.pdf'' sample_clock = ''report_2026-02-01''"
    by (simp add: expand_pattern_def placeholders_def replaceAll_def sample_clock_def pad2_def
          show_nat.simps digit_char_def extname_def basename_def basename_ext_def sep_def
          endsWith_def monthNames_def Let_def)
  have x: "extname ''report.pdf'' = ''.pdf''"
    by (simp add: extname_def basename_def sep_def)
  have s: "split_sep ''/out'' = [[], ''out'']"
    by (simp add: sep_def)
  show "applyPattern ''/out'' ''{filename}_{YYYY}-{MM}-{DD}'' ''report.pdf'' md sample_clock
       = ''/out/report_2026-02-01.pdf''"
    by (simp add: applyPattern_def e x s endsWith_def join_def normalize_def normalizeString_def
          norm_step_def sep_def)
qed

theorem applyPattern_destination_witness:
  "applyPattern ''/home/u/Docs/archive.v1'' ''{filename}-{Month}'' ''/in/report.pdf'' None sample_clock
     = join [''/home/u/Docs/archive.v1'', ''report-February.pdf'']
   \<and> applyPattern ''old.pdf'' ''{filename}-{Month}.pdf'' ''/in/report.pdf'' None sample_clock
     = join [''.'', ''report-February.pdf'']"
proof -
  have e1: "expand_pattern ''{filename}-{Month}'' ''/in/report.pdf'' sample_clock = ''report-February''"
    by (simp add: expand_pattern_def placeholders_def replaceAll_def sample_clock_def pad2_def
          show_nat.simps digit_char_def extname_def basename_def basename_ext_def sep_def
          endsWith_def monthNames_def Let_def)
  have e2: "expand_pattern ''{filename}-{Month}.pdf'' ''/in/report.pdf'' sample_clock = ''report-February.pdf''"
    by (simp add: expand_pattern_def placeholders_def replaceAll_def sample_clock_def pad2_def
          show_nat.simps digit_char_def extname_def basename_def basename_ext_def sep_def
          endsWith_def monthNames_def Let_def)
  have x: "extname ''/in/report.pdf'' = ''.pdf''" "extname ''old.pdf'' = ''.pdf''"
    by (simp_all add: extname_def basename_def sep_def)
  have h1: "sep \<in> set ''/home/u/Docs/archive.v1'' \<or> extname ''/home/u/Docs/archive.v1'' = []"
    by (simp add: sep_def)
  have h2: "sep \<notin> set ''old.pdf'' \<and> extname ''old.pdf'' \<noteq> []"
    by (simp add: sep_def x)
  have r1: "applyPattern ''/home/u/Docs/archive.v1'' ''{filename}-{Month}'' ''/in/report.pdf'' None sample_clock
      = join [''/home/u/Docs/archive.v1'',
          (if endsWith (expand_pattern ''{filename}-{Month}'' ''/in/report.pdf'' sample_clock) (extname ''/in/report.pdf'')
           then expand_pattern ''{filename}-{Month}'' ''/in/report.pdf'' sample_clock
           else expand_pattern ''{filename}-{Month}'' ''/in/report.pdf'' sample_clock @ extname ''/in/report.pdf'')]"
    by (rule mp [OF conjunct1 [OF applyPattern_destination] h1])
  have r2: "applyPattern ''old.pdf'' ''{filename}-{Month}.pdf'' ''/in/report.pdf'' None sample_clock
      = join [dirname ''old.pdf'',
          (if endsWith (expand_pattern ''{filename}-{Month}.pdf'' ''/in/report.pdf'' sample_clock) (extname ''/in/report.pdf'')
           then expand_pattern ''{filename}-{Month}.pdf'' ''/in/report.pdf'' sample_clock
           else expand_pattern ''{filename}-{Month}.pdf'' ''/in/report.pdf'' sample_clock @ extname ''/in/report.pdf'')]"
    by (rule conjunct2 [OF mp [OF conjunct1 [OF conjunct2 [OF applyPattern_destination]] h2]])
  have r3: "dirname ''old.pdf'' = ''.''"
    by (rule conjunct1 [OF mp [OF conjunct1 [OF conjunct2
          [OF applyPattern_destination [of "''old.pdf''" "[]" "[]" None sample_clock]]] h2]])
  show ?thesis
    by (simp add: r1 r2 r3 e1 e2 x endsWith_def)
qed

section \<open>Collision resolution\<close>

lemma split_sep_append: "split_sep (a @ sep # b) = split_sep a @ split_sep b"
proof (induction a)
  case Nil
  then show ?case by simp
next
  case (Cons c a)
  obtain x xs where x: "split_sep a = x # xs"
    using split_sep_not_Nil [of a] by (cases "split_sep a") auto
  with Cons show ?case by simp
qed

lemma split_sep_plain: "sep \<notin> set s \<Longrightarrow> split_sep s = [s]"
  by (induction s) auto

lemma join_with_snoc:
  "join_with g (xs @ [x]) = (if xs = [] then x else join_with g xs @ g @ x)"
  by (induction g xs rule: join_with.induct) auto

lemma norm_step_regular:
  "seg \<noteq> [] \<Longrightarrow> seg \<noteq> ''.'' \<Longrightarrow> seg \<noteq> ''..'' \<Longrightarrow> norm_step b seg stack = seg # stack"
  by (simp add: norm_step_def)

lemma normalizeString_last:
  assumes "sep \<notin> set name" "name \<noteq> []" "name \<noteq> ''.''" "name \<noteq> ''..''"
  shows "\<exists>q. normalizeString (d @ sep # name) b = q @ name"
proof -
  have "fold (norm_step b) (split_sep (d @ sep # name)) [] = name # fold (norm_step b) (split_sep d) []"
    using assms by (simp add: split_sep_append split_sep_plain norm_step_regular)
  then show ?thesis
    by (simp add: normalizeString_def join_with_snoc)
qed

lemma normalizeString_plain:
  assumes "sep \<notin> set name" "name \<noteq> []" "name \<noteq> ''.''" "name \<noteq> ''..''"
  shows "normalizeString name b = name"
  using assms by (simp add: normalizeString_def split_sep_plain norm_step_regular)

lemma normalize_last:
  assumes "sep \<notin> set name" "name \<noteq> []" "name \<noteq> ''.''" "name \<noteq> ''..''"
  shows "\<exists>q. normalize (d @ sep # name) = q @ name"
proof -
  obtain q where q: "normalizeString (d @ sep # name) (hd (d @ sep # name) \<noteq> sep) = q @ name"
    using normalizeString_last [OF assms] by blast
  have l: "last (d @ sep # name) \<noteq> sep"
    using assms(1,2) by (metis last_appendR last_ConsR last_in_set list.distinct(1))
  show ?thesis
    using q l assms(2) by (auto simp: normalize_def Let_def)
qed

lemma join_last:
  assumes "sep \<notin> set name" "name \<noteq> []" "name \<noteq> ''.''" "name \<noteq> ''..''"
  shows "\<exists>q. join [d, name] = q @ name"
proof (cases "d = []")
  case True
  have "hd name \<noteq> sep" "last name \<noteq> sep"
    using assms(1,2) by (metis hd_in_set, metis last_in_set)
  then have "normalize name = name"
    using assms by (simp add: normalize_def normalizeString_plain Let_def)
  with True assms(2) show ?thesis by (simp add: join_def)
next
  case False
  obtain q where "normalize (d @ sep # name) = q @ name"
    using normalize_last [OF assms] by blast
  with False assms(2) show ?thesis by (auto simp: join_def)
qed

lemma sep_notin_basename: "sep \<notin> set (basename p)"
proof
  assume "sep \<in> set (basename p)"
  then have "sep \<in> set (takeWhile (\<lambda>c. c \<noteq> sep) (dropWhile (\<lambda>c. c = sep) (rev p)))"
    by (simp add: basename_def)
  then show False by (auto dest: set_takeWhileD)
qed

lemma sep_notin_extname: "sep \<notin> set (extname p)"
proof (cases "extname p = []")
  case True
  then show ?thesis by simp
next
  case False
  then obtain st where "basename p = st @ extname p" using extname_shape by blast
  then show ?thesis using sep_notin_basename [of p] by (metis Un_iff set_append)
qed

lemma sep_notin_stem: "sep \<notin> set (basename_ext p (extname p))"
  using sep_notin_basename [of p] by (auto simp: stem_eq dest: in_set_takeD)

lemma candidate_ends:
  "\<exists>q. collision_candidate p n = q @ basename_ext p (extname p) @ ''-'' @ show_nat n @ extname p"
proof -
  let ?name = "basename_ext p (extname p) @ ''-'' @ show_nat n @ extname p"
  have d: "sep \<notin> set (show_nat n)"
    by (induction n rule: show_nat.induct)
       (subst show_nat.simps, auto simp: digit_char_def sep_def nth_Cons' )
  have "sep \<notin> set ?name"
    using sep_notin_stem [of p] sep_notin_extname [of p] d by (auto simp: sep_def)
  moreover have "CHR ''-'' \<in> set ?name" by simp
  then have "?name \<noteq> []" "?name \<noteq> ''.''" "?name \<noteq> ''..''"
    by (auto simp del: set_append)
  ultimately show ?thesis
    unfolding collision_candidate_def by (rule join_last)
qed

lemma probe_first_free:
  "k \<le> n \<Longrightarrow> \<not> fs_access sys (collision_candidate p n) w \<Longrightarrow>
   (\<forall>j. k \<le> j \<and> j < n \<longrightarrow> fs_access sys (collision_candidate p j) w) \<Longrightarrow>
   probe sys w p k = Some (collision_candidate p n)"
proof (induction "n - k" arbitrary: k)
  case 0
  then have "k = n" by simp
  with 0 show ?case by (subst probe.simps) simp
next
  case (Suc d)
  then have lt: "k < n" by simp
  with Suc.prems have a: "fs_access sys (collision_candidate p k) w" by simp
  have "probe sys w p (k + 1) = Some (collision_candidate p n)"
    using Suc lt by (intro Suc.hyps) auto
  with a show ?case by (subst probe.simps) simp
qed

lemma length_show_nat_pow: "k < length (show_nat (10 ^ k))"
proof (induction k)
  case 0
  then show ?case by (subst show_nat.simps) simp
next
  case (Suc k)
  have "\<not> (10::nat) ^ Suc k < 10" by simp
  then have "show_nat (10 ^ Suc k) = show_nat (10 ^ Suc k div 10) @ [digit_char (10 ^ Suc k mod 10)]"
    by (subst show_nat.simps) simp
  with Suc show ?case by simp
qed

lemma exists_free:
  assumes "finite {q. fs_access sys q w}"
  shows "\<exists>n\<ge>1. \<not> fs_access sys (collision_candidate p n) w"
proof -
  obtain L where L: "\<forall>q \<in> {q. fs_access sys q w}. length q < L"
    using finite_maxlen [OF assms] by blast
  obtain q where "collision_candidate p (10 ^ L)
      = q @ basename_ext p (extname p) @ ''-'' @ show_nat (10 ^ L) @ extname p"
    using candidate_ends by blast
  then have "length (show_nat (10 ^ L)) \<le> length (collision_candidate p (10 ^ L))"
    by simp
  with length_show_nat_pow [of L] have "\<not> length (collision_candidate p (10 ^ L)) < L"
    by simp
  with L have "\<not> fs_access sys (collision_candidate p (10 ^ L)) w" by auto
  moreover have "(1::nat) \<le> 10 ^ L" by simp
  ultimately show ?thesis by blast
qed

lemma first_free:
  assumes "finite {q. fs_access sys q w}"
  shows "\<exists>n\<ge>1. \<not> fs_access sys (collision_candidate p n) w
            \<and> (\<forall>k. 1 \<le> k \<and> k < n \<longrightarrow> fs_access sys (collision_candidate p k) w)"
proof -
  let ?P = "\<lambda>n. 1 \<le> n \<and> \<not> fs_access sys (collision_candidate p n) w"
  have ex: "\<exists>n. ?P n" using exists_free [OF assms] by blast
  then have l: "?P (LEAST n. ?P n)" by (rule LeastI_ex)
  have "fs_access sys (collision_candidate p k) w" if "1 \<le> k" "k < (LEAST n. ?P n)" for k
    using that not_less_Least [of k ?P] by blast
  with l show ?thesis by blast
qed

lemma probe_returns:
  assumes "finite {q. fs_access sys q w}"
  shows "\<exists>n\<ge>1. probe sys w p 1 = Some (collision_candidate p n)
            \<and> \<not> fs_access sys (collision_candidate p n) w
            \<and> (\<forall>k. 1 \<le> k \<and> k < n \<longrightarrow> fs_access sys (collision_candidate p k) w)"
proof -
  obtain n where n: "1 \<le> n" "\<not> fs_access sys (collision_candidate p n) w"
      "\<forall>k. 1 \<le> k \<and> k < n \<longrightarrow> fs_access sys (collision_candidate p k) w"
    using first_free [OF assms] by blast
  then have "probe sys w p 1 = Some (collision_candidate p n)"
    by (intro probe_first_free) auto
  with n show ?thesis by blast
qed




lemma mem_access: "fs_access mem_system p (files ps) \<longleftrightarrow> p \<in> set ps"
  by (simp add: mem_system_def files_def)



section \<open>Compression adapter\<close>

lemma compressPdf_missing:
  "\<not> fs_access sys src w \<Longrightarrow>
   compressPdf sys src dest q w = (Inl (''Source file not found: '' @ src), w)"
  by (simp add: compressPdf_def)

lemma compressPdf_spawned:
  "fs_access sys src w \<Longrightarrow>
   compressPdf sys src dest q w =
     (case spawn sys (getGhostscriptCommand sys) (gs_arguments src dest q) w of
        (SpawnError m, w') \<Rightarrow>
          (Inl (''Failed to spawn Ghostscript: '' @ m
                @ ''. Please install Ghostscript (brew install ghostscript)''), w')
      | (Closed c errorOutput, w') \<Rightarrow>
          (if c = Some 0 then (Inr (), w')
           else (Inl (''Ghostscript failed with code '' @ show_code c @ '': '' @ errorOutput), w')))"
  by (simp add: compressPdf_def)

text \<open>
  C9. Compression of a missing source fails with a "source not found" error without
  touching the world, whatever the process primitive would do. With the source present,
  a process that cannot be spawned gives a "failed to spawn" error that names
  Ghostscript; a process that ends with a code other than zero gives an error that
  carries the code and the text it wrote to its error stream; the three messages differ
  from each other. The compression succeeds exactly when the source exists and the
  process ends with code zero.
\<close>

theorem compressPdf_outcomes:
  "(\<not> fs_access sys src w \<longrightarrow>
      compressPdf sys src dest q w = (Inl (''Source file not found: '' @ src), w)
      \<and> compressPdf (sys\<lparr>spawn := other\<rparr>) src dest q w = compressPdf sys src dest q w)
   \<and> (fs_access sys src w
        \<and> spawn sys (getGhostscriptCommand sys) (gs_arguments src dest q) w = (SpawnError m, w')
      \<longrightarrow> compressPdf sys src dest q w =
            (Inl (''Failed to spawn Ghostscript: '' @ m
                  @ ''. Please install Ghostscript (brew install ghostscript)''), w'))
   \<and> (fs_access sys src w
        \<and> spawn sys (getGhostscriptCommand sys) (gs_arguments src dest q) w = (Closed c err, w')
        \<and> c \<noteq> Some 0
      \<longrightarrow> compressPdf sys src dest q w =
            (Inl (''Ghostscript failed with code '' @ show_code c @ '': '' @ err), w'))
   \<and> (fst (compressPdf sys src dest q w) = Inr ()
        \<longleftrightarrow> fs_access sys src w
            \<and> (\<exists>e. fst (spawn sys (getGhostscriptCommand sys) (gs_arguments src dest q) w)
                     = Closed (Some 0) e))
   \<and> ''Source file not found: '' @ src
        \<noteq> ''Failed to spawn Ghostscript: '' @ m
            @ ''. Please install Ghostscript (brew install ghostscript)''
   \<and> ''Source file not found: '' @ src \<noteq> ''Ghostscript failed with code '' @ show_code c @ '': '' @ err
   \<and> ''Failed to spawn Ghostscript: '' @ m @ ''. Please install Ghostscript (brew install ghostscript)''
        \<noteq> ''Ghostscript failed with code '' @ show_code c @ '': '' @ err"
proof (intro conjI impI)
  show "compressPdf sys src dest q w = (Inl (''Source file not found: '' @ src), w)"
    if "\<not> fs_access sys src w"
    using that by (rule compressPdf_missing)
  show "compressPdf (sys\<lparr>spawn := other\<rparr>) src dest q w = compressPdf sys src dest q w"
    if "\<not> fs_access sys src w"
    using that by (simp add: compressPdf_def)
  show "compressPdf sys src dest q w =
            (Inl (''Failed to spawn Ghostscript: '' @ m
                  @ ''. Please install Ghostscript (brew install ghostscript)''), w')"
    if "fs_access sys src w
        \<and> spawn sys (getGhostscriptCommand sys) (gs_arguments src dest q) w = (SpawnError m, w')"
    using that by (simp add: compressPdf_spawned)
  show "compressPdf sys src dest q w =
            (Inl (''Ghostscript failed with code '' @ show_code c @ '': '' @ err), w')"
    if "fs_access sys src w
        \<and> spawn sys (getGhostscriptCommand sys) (gs_arguments src dest q) w = (Closed c err, w')
        \<and> c \<noteq> Some 0"
    using that by (simp add: compressPdf_spawned)
  show "fst (compressPdf sys src dest q w) = Inr ()
        \<longleftrightarrow> fs_access sys src w
            \<and> (\<exists>e. fst (spawn sys (getGhostscriptCommand sys) (gs_arguments src dest q) w)
                     = Closed (Some 0) e)"
  proof (cases "fs_access sys src w")
    case False
    then show ?thesis by (simp add: compressPdf_missing)
  next
    case True
    obtain out w2 where s: "spawn sys (getGhostscriptCommand sys) (gs_arguments src dest q) w = (out, w2)"
      by (cases "spawn sys (getGhostscriptCommand sys) (gs_arguments src dest q) w")
    show ?thesis using True s by (cases out) (auto simp: compressPdf_spawned)
  qed
qed simp_all

theorem compressPdf_outcomes_witness:
  "compressPdf mem_system ''/in/gone.pdf'' ''/out/gone.pdf'' Medium (files [''/in/a.pdf''])
     = (Inl ''Source file not found: /in/gone.pdf'', files [''/in/a.pdf''])
   \<and> compressPdf mem_system ''/in/a.pdf'' ''/out/a.pdf'' Medium (files [''/in/a.pdf''])
     = (Inl ''Failed to spawn Ghostscript: spawn gs ENOENT. Please install Ghostscript (brew install ghostscript)'',
        files [''/in/a.pdf''])
   \<and> compressPdf mem_system ''/in/a.pdf'' ''/out/a.pdf'' Low
        ((files [''/in/a.pdf''])\<lparr>ghostscript := Closed (Some 1) ''bad xref''\<rparr>)
     = (Inl ''Ghostscript failed with code 1: bad xref'',
        (files [''/in/a.pdf''])\<lparr>ghostscript := Closed (Some 1) ''bad xref''\<rparr>)"
proof -
  let ?w = "files [''/in/a.pdf'']"
  let ?v = "?w\<lparr>ghostscript := Closed (Some 1) ''bad xref''\<rparr>"
  have h1: "\<not> fs_access mem_system ''/in/gone.pdf'' ?w"
    by (simp add: mem_access)
  have h2: "fs_access mem_system ''/in/a.pdf'' ?w
        \<and> spawn mem_system (getGhostscriptCommand mem_system)
             (gs_arguments ''/in/a.pdf'' ''/out/a.pdf'' Medium) ?w = (SpawnError ''spawn gs ENOENT'', ?w)"
    by (simp add: mem_system_def files_def)
  have h3: "fs_access mem_system ''/in/a.pdf'' ?v
        \<and> spawn mem_system (getGhostscriptCommand mem_system)
             (gs_arguments ''/in/a.pdf'' ''/out/a.pdf'' Low) ?v = (Closed (Some 1) ''bad xref'', ?v)
        \<and> Some 1 \<noteq> Some (0::int)"
    by (simp add: mem_system_def files_def)
  have c1: "show_code (Some 1) = ''1''"
    by (simp add: show_code_def show_int_def show_nat.simps digit_char_def)
  note t1 = compressPdf_outcomes [of mem_system "''/in/gone.pdf''" ?w "''/out/gone.pdf''" Medium]
  note t2 = compressPdf_outcomes [of mem_system "''/in/a.pdf''" ?w "''/out/a.pdf''" Medium _
              "''spawn gs ENOENT''" ?w]
  note t3 = compressPdf_outcomes [of mem_system "''/in/a.pdf''" ?v "''/out/a.pdf''" Low _ _ _
              "Some 1" "''bad xref''"]
  have a: "compressPdf mem_system ''/in/gone.pdf'' ''/out/gone.pdf'' Medium ?w
     = (Inl (''Source file not found: '' @ ''/in/gone.pdf''), ?w)"
    by (rule conjunct1 [OF mp [OF conjunct1 [OF t1] h1]])
  have b: "compressPdf mem_system ''/in/a.pdf'' ''/out/a.pdf'' Medium ?w
     = (Inl (''Failed to spawn Ghostscript: '' @ ''spawn gs ENOENT''
                  @ ''. Please install Ghostscript (brew install ghostscript)''), ?w)"
    by (rule mp [OF conjunct1 [OF conjunct2 [OF t2]] h2])
  have c: "compressPdf mem_system ''/in/a.pdf'' ''/out/a.pdf'' Low ?v
     = (Inl (''Ghostscript failed with code '' @ show_code (Some 1) @ '': '' @ ''bad xref''), ?v)"
    by (rule mp [OF conjunct1 [OF conjunct2 [OF conjunct2 [OF t3]]] h3])
  from a b c c1 show ?thesis by simp
qed

section \<open>Action executor\<close>

lemma normalize_not_Nil: "normalize p \<noteq> []"
  by (simp add: normalize_def Let_def)

lemma join_not_Nil: "join parts \<noteq> []"
  by (simp add: join_def Let_def normalize_not_Nil)

lemma extname_Nil: "extname [] = []"
  by (simp add: extname_def basename_def)

lemma destination_for_not_Nil: "destination_for a src cfg md now \<noteq> []"
proof (cases "has_pattern a")
  case True
  then show ?thesis
    by (simp add: destination_for_def Let_def applyPattern_def join_not_Nil)
next
  case False
  let ?d = "replaceAll ''{category}'' (detectPdfCategory (basename src))
              (replaceTemplateVariables (destination (config a)) cfg md)"
  have d: "destination_for a src cfg md now = (if extname ?d = [] then join [?d, basename src] else ?d)"
    using False by (simp add: destination_for_def Let_def)
  show ?thesis
  proof (cases "extname ?d = []")
    case True
    with d show ?thesis by (simp add: join_not_Nil)
  next
    case False
    then have "?d \<noteq> []" using extname_Nil by metis
    with d False show ?thesis by simp
  qed
qed

lemma resolveCollision_dry: "resolveCollision sys p True w = Some p"
  by (simp add: resolveCollision_def)

lemma resolveCollision_total:
  assumes "finite {q. fs_access sys q w}" "p \<noteq> []"
  shows "\<exists>d. resolveCollision sys p dr w = Some d \<and> d \<noteq> []"
proof (cases "\<not> dr \<and> fs_access sys p w")
  case True
  obtain n where "probe sys w p 1 = Some (collision_candidate p n)"
    using probe_returns [OF assms(1)] by blast
  with True show ?thesis
    by (simp add: resolveCollision_def collision_candidate_def join_not_Nil)
next
  case False
  with assms(2) show ?thesis by (auto simp: resolveCollision_def)
qed

lemma perform_cases:
  "(\<exists>m w'. perform sys a src d w = (Inl m, w')) \<or> (\<exists>w'. perform sys a src d w = (Inr (), w'))"
proof (cases "perform sys a src d w")
  case (Pair x w')
  then show ?thesis by (cases x) auto
qed

lemma ensure_directory_cases:
  "(\<exists>e w'. ensure_directory sys a d dr w = (Some e, w')) \<or> (\<exists>w'. ensure_directory sys a d dr w = (None, w'))"
proof (cases "ensure_directory sys a d dr w")
  case (Pair x w')
  then show ?thesis by (cases x) auto
qed

lemma loadConfig_cases:
  "(\<exists>e w'. loadConfig sys w = (Inl e, w')) \<or> (\<exists>cfg w'. loadConfig sys w = (Inr cfg, w'))"
proof (cases "loadConfig sys w")
  case (Pair x w')
  then show ?thesis by (cases x) auto
qed

text \<open>What a result of \<open>executeAction\<close> looks like.\<close>

lemma executeAction_returns:
  assumes "dr \<or> (\<forall>w. finite {q. fs_access sys q w})"
  shows "\<exists>r w'. executeAction sys a src dr md w = Some (r, w')
           \<and> r_action r = a \<and> r_sourcePath r = Some src
           \<and> (r_status r = Success \<and> (\<exists>d. r_destinationPath r = Some d \<and> d \<noteq> [])
                 \<and> r_error r = None
               \<or> r_status r = Failed \<and> r_destinationPath r = None \<and> (\<exists>m. r_error r = Some m))"
proof -
  consider e w1 where "loadConfig sys w = (Inl e, w1)"
    | cfg w1 where "loadConfig sys w = (Inr cfg, w1)"
    using loadConfig_cases [of sys w] by blast
  then show ?thesis
  proof cases
    case 1
    then show ?thesis by (simp add: executeAction_def failed_def)
  next
    case 2
    let ?d = "destination_for a src cfg md (date_now sys w1)"
    consider e w2 where "ensure_directory sys a ?d dr w1 = (Some e, w2)"
      | w2 where "ensure_directory sys a ?d dr w1 = (None, w2)"
      using ensure_directory_cases [of sys a ?d dr w1] by blast
    then show ?thesis
    proof cases
      case 1
      with 2 show ?thesis by (simp add: executeAction_def failed_def)
    next
      case e: 2
      have "\<exists>d. resolveCollision sys ?d dr w2 = Some d \<and> d \<noteq> []"
      proof (cases dr)
        case True
        then show ?thesis by (simp add: resolveCollision_dry destination_for_not_Nil)
      next
        case False
        with assms have "finite {q. fs_access sys q w2}" by simp
        then show ?thesis by (rule resolveCollision_total) (rule destination_for_not_Nil)
      qed
      then obtain d where d: "resolveCollision sys ?d dr w2 = Some d" "d \<noteq> []" by blast
      show ?thesis
      proof (cases dr)
        case True
        with 2 e d show ?thesis by (simp add: executeAction_def succeeded_def)
      next
        case False
        consider m w3 where "perform sys a src d w2 = (Inl m, w3)"
          | w3 where "perform sys a src d w2 = (Inr (), w3)"
          using perform_cases [of sys a src d w2] by blast
        then show ?thesis
        proof cases
          case 1
          with 2 e d False show ?thesis by (simp add: executeAction_def failed_def)
        next
          case p: 2
          with 2 e d False show ?thesis by (simp add: executeAction_def succeeded_def)
        qed
      qed
    qed
  qed
qed

lemma chain_of_results:
  assumes "dr \<or> (\<forall>w. finite {q. fs_access sys q w})"
  shows "\<exists>rs w'. executeActions sys as cur dr md w = Some (rs, w')
           \<and> length rs = length as \<and> map r_action rs = as
           \<and> map r_sourcePath rs = map Some (chain_inputs cur rs)
           \<and> (\<forall>r \<in> set rs.
                 r_status r = Success \<and> (\<exists>d. r_destinationPath r = Some d \<and> d \<noteq> [])
                   \<and> r_error r = None
                 \<or> r_status r = Failed \<and> r_destinationPath r = None \<and> (\<exists>m. r_error r = Some m))"
proof (induction as arbitrary: cur w)
  case Nil
  then show ?case by simp
next
  case (Cons a as)
  obtain r w1 where r: "executeAction sys a cur dr md w = Some (r, w1)"
      "r_action r = a" "r_sourcePath r = Some cur"
      "r_status r = Success \<and> (\<exists>d. r_destinationPath r = Some d \<and> d \<noteq> []) \<and> r_error r = None
       \<or> r_status r = Failed \<and> r_destinationPath r = None \<and> (\<exists>m. r_error r = Some m)"
    using executeAction_returns [OF assms, of a cur md w] by blast
  have n: "next_path cur r
      = (case r_destinationPath r of Some d \<Rightarrow> if r_status r = Success then d else cur | None \<Rightarrow> cur)"
    using r(4) by (auto simp: next_path_def)
  obtain rs w2 where rs: "executeActions sys as (next_path cur r) dr md w1 = Some (rs, w2)"
      "length rs = length as" "map r_action rs = as"
      "map r_sourcePath rs = map Some (chain_inputs (next_path cur r) rs)"
      "\<forall>r \<in> set rs.
          r_status r = Success \<and> (\<exists>d. r_destinationPath r = Some d \<and> d \<noteq> []) \<and> r_error r = None
          \<or> r_status r = Failed \<and> r_destinationPath r = None \<and> (\<exists>m. r_error r = Some m)"
    using Cons.IH [of "next_path cur r" w1] by blast
  have "executeActions sys (a # as) cur dr md w = Some (r # rs, w2)"
    using r(1) rs(1) by simp
  moreover have "map r_sourcePath (r # rs) = map Some (chain_inputs cur (r # rs))"
    using r(3) rs(4) n by simp
  ultimately show ?case using r(2,4) rs(2,3,5) by auto
qed

subsection \<open>Dry runs\<close>

lemma executeAction_dry:
  "executeAction sys a src True md w =
     (case loadConfig sys w of
        (Inl e, w1) \<Rightarrow> Some (failed a src (message e), w1)
      | (Inr cfg, w1) \<Rightarrow>
          Some (succeeded a src (destination_for a src cfg md (date_now sys w1)), w1))"
  by (simp add: executeAction_def ensure_directory_def resolveCollision_def Let_def
        split: prod.splits sum.splits)

lemma next_path_failed: "next_path cur (failed a src m) = cur"
  by (simp add: next_path_def failed_def)

lemma next_path_succeeded: "d \<noteq> [] \<Longrightarrow> next_path cur (succeeded a src d) = d"
  by (simp add: next_path_def succeeded_def)

lemma executeActions_dry:
  "executeActions sys as cur True md w
     = Some (dry_run_results sys as cur md w, config_loads sys (length as) w)"
proof (induction as arbitrary: cur w)
  case Nil
  then show ?case by simp
next
  case (Cons a as)
  consider e w1 where "loadConfig sys w = (Inl e, w1)"
    | cfg w1 where "loadConfig sys w = (Inr cfg, w1)"
    using loadConfig_cases [of sys w] by blast
  then show ?case
  proof cases
    case 1
    then show ?thesis
      by (simp add: executeAction_dry next_path_failed Cons.IH)
  next
    case 2
    then show ?thesis
      by (simp add: executeAction_dry next_path_succeeded destination_for_not_Nil Cons.IH)
  qed
qed

lemma length_dry_run_results: "length (dry_run_results sys as cur md w) = length as"
  by (induction as arbitrary: cur w) (auto split: prod.splits sum.splits)

lemma actions_dry_run_results: "map r_action (dry_run_results sys as cur md w) = as"
  by (induction as arbitrary: cur w)
     (auto simp: failed_def succeeded_def split: prod.splits sum.splits)

lemma loadConfig_unused_primitives:
  "loadConfig (sys\<lparr>fs_access := ac, fs_rename := rn, fs_copyFile := cp, spawn := sp,
                   fs_mkdir := (\<lambda>p. if p = DB_DIR then fs_mkdir sys p else mk p)\<rparr>) w
     = loadConfig sys w"
proof -
  let ?s = "sys\<lparr>fs_access := ac, fs_rename := rn, fs_copyFile := cp, spawn := sp,
                   fs_mkdir := (\<lambda>p. if p = DB_DIR then fs_mkdir sys p else mk p)\<rparr>"
  have d: "DEFAULT_CONFIG ?s = DEFAULT_CONFIG sys"
    by (simp add: DEFAULT_CONFIG_def)
  have e: "ensureDbDir ?s v = ensureDbDir sys v" for v
    by (simp add: ensureDbDir_def)
  have s: "saveConfig ?s cfg v = saveConfig sys cfg v" for cfg v
    by (simp add: saveConfig_def e)
  have r: "fs_readConfig ?s = fs_readConfig sys"
    by simp
  show ?thesis
    unfolding loadConfig_def d e s r ..
qed

lemma dry_run_results_unused_primitives:
  "dry_run_results (sys\<lparr>fs_access := ac, fs_rename := rn, fs_copyFile := cp, spawn := sp,
                   fs_mkdir := (\<lambda>p. if p = DB_DIR then fs_mkdir sys p else mk p)\<rparr>) as cur md w
     = dry_run_results sys as cur md w"
proof (induction as arbitrary: cur w)
  case Nil
  then show ?case by simp
next
  case (Cons a as)
  have dn: "date_now (sys\<lparr>fs_access := ac, fs_rename := rn, fs_copyFile := cp, spawn := sp,
                   fs_mkdir := (\<lambda>p. if p = DB_DIR then fs_mkdir sys p else mk p)\<rparr>) = date_now sys"
    by simp
  show ?case
    unfolding dry_run_results.simps loadConfig_unused_primitives Cons.IH dn ..
qed

lemma config_loads_unused_primitives:
  "config_loads (sys\<lparr>fs_access := ac, fs_rename := rn, fs_copyFile := cp, spawn := sp,
                   fs_mkdir := (\<lambda>p. if p = DB_DIR then fs_mkdir sys p else mk p)\<rparr>) n w
     = config_loads sys n w"
  by (induction n arbitrary: w) (simp_all only: config_loads.simps loadConfig_unused_primitives)

lemma config_loads_fixed: "snd (loadConfig sys w) = w \<Longrightarrow> config_loads sys n w = w"
  by (induction n) simp_all

subsection \<open>The in-memory system never removes an entry in a failed action\<close>

lemma mem_loadConfig_keeps:
  "loadConfig mem_system w = (x, w1) \<Longrightarrow> set (entries w) \<subseteq> set (entries w1)"
  by (auto simp: loadConfig_def ensureDbDir_def saveConfig_def mem_system_def Let_def
        split: option.splits)

lemma mem_ensure_directory_keeps:
  "ensure_directory mem_system a d dr w = (x, w1) \<Longrightarrow> set (entries w) \<subseteq> set (entries w1)"
  by (auto simp: ensure_directory_def mem_system_def split: if_splits)

lemma mem_compress_failed:
  "compressPdf mem_system src d q w = (Inl m, w1) \<Longrightarrow> w1 = w"
  by (cases "ghostscript w")
     (auto simp: compressPdf_def mem_system_def getGhostscriptCommand_def split: if_splits)

lemma mem_perform_failed:
  "perform mem_system a src d w = (Inl m, w1) \<Longrightarrow> w1 = w"
proof (cases "atype a")
  case Compress
  assume "perform mem_system a src d w = (Inl m, w1)"
  with Compress show ?thesis by (auto simp: perform_def dest: mem_compress_failed)
qed (auto simp: perform_def mem_system_def split: if_splits)

lemma mem_failed_keeps_entries:
  assumes "executeAction mem_system a src dr md w = Some (r, w')" "r_status r = Failed"
  shows "set (entries w) \<subseteq> set (entries w')"
proof -
  obtain x w1 where l: "loadConfig mem_system w = (x, w1)"
    by (cases "loadConfig mem_system w")
  have k1: "set (entries w) \<subseteq> set (entries w1)"
    using l by (rule mem_loadConfig_keeps)
  show ?thesis
  proof (cases x)
    case (Inl e)
    with l assms(1) have "w' = w1" by (simp add: executeAction_def)
    with k1 show ?thesis by simp
  next
    case (Inr cfg)
    let ?d = "destination_for a src cfg md (date_now mem_system w1)"
    obtain y w2 where e: "ensure_directory mem_system a ?d dr w1 = (y, w2)"
      by (cases "ensure_directory mem_system a ?d dr w1")
    have k2: "set (entries w1) \<subseteq> set (entries w2)"
      using e by (rule mem_ensure_directory_keeps)
    show ?thesis
    proof (cases y)
      case (Some err)
      with l Inr e assms(1) have "w' = w2" by (simp add: executeAction_def)
      with k1 k2 show ?thesis by auto
    next
      case None
      show ?thesis
      proof (cases "resolveCollision mem_system ?d dr w2")
        case None
        with l Inr e \<open>y = None\<close> assms(1) show ?thesis by (simp add: executeAction_def)
      next
        case (Some d)
        show ?thesis
        proof (cases dr)
          case True
          with l Inr e \<open>y = None\<close> Some assms show ?thesis
            by (auto simp: executeAction_def succeeded_def)
        next
          case False
          obtain z w3 where p: "perform mem_system a src d w2 = (z, w3)"
            by (cases "perform mem_system a src d w2")
          show ?thesis
          proof (cases z)
            case (Inl m)
            with p have "w3 = w2" by (auto dest: mem_perform_failed)
            moreover from l Inr e \<open>y = None\<close> Some False p Inl assms(1) have "w' = w3"
              by (simp add: executeAction_def)
            ultimately show ?thesis using k1 k2 by auto
          next
            case (Inr u)
            with l \<open>x = Inr cfg\<close> e \<open>y = None\<close> Some False p assms show ?thesis
              by (auto simp: executeAction_def succeeded_def)
          qed
        qed
      qed
    qed
  qed
qed

subsection \<open>Every action of the chain is executed\<close>

lemma executeActions_length:
  "executeActions sys as cur dr md w = Some (rs, w') \<Longrightarrow> length rs = length as"
  by (induction as arbitrary: cur w rs) (auto split: option.splits prod.splits)

lemma executeAction_source:
  "executeAction sys a src dr md w = Some (r, w') \<Longrightarrow> r_sourcePath r = Some src \<and> r_action r = a"
  by (auto simp: executeAction_def Let_def failed_def succeeded_def
        split: prod.splits sum.splits option.splits if_splits)

lemma executeActions_append:
  "executeActions sys (as @ bs) cur dr md w =
     (case executeActions sys as cur dr md w of
        None \<Rightarrow> None
      | Some (rs, w1) \<Rightarrow>
          (case executeActions sys bs (fold (\<lambda>r c. next_path c r) rs cur) dr md w1 of
             None \<Rightarrow> None
           | Some (rs', w2) \<Rightarrow> Some (rs @ rs', w2)))"
  by (induction as arbitrary: cur w) (auto split: option.splits prod.splits)

lemma executeActions_step:
  assumes "executeActions sys as src dr md w = Some (rs, w')" "i < length as"
  shows "\<exists>wi wi'. executeActions sys (take i as) src dr md w = Some (take i rs, wi)
           \<and> executeAction sys (as ! i) (fold (\<lambda>r c. next_path c r) (take i rs) src) dr md wi
               = Some (rs ! i, wi')
           \<and> executeActions sys (take (Suc i) as) src dr md w = Some (take (Suc i) rs, wi')"
proof -
  have split: "as = take i as @ (as ! i) # drop (Suc i) as"
    using assms(2) by (simp add: id_take_nth_drop)
  have "executeActions sys (take i as @ (as ! i) # drop (Suc i) as) src dr md w = Some (rs, w')"
    using assms(1) split by simp
  then obtain rs1 wi rs2 where p:
      "executeActions sys (take i as) src dr md w = Some (rs1, wi)"
      "executeActions sys ((as ! i) # drop (Suc i) as) (fold (\<lambda>r c. next_path c r) rs1 src) dr md wi
         = Some (rs2, w')"
      "rs = rs1 @ rs2"
    by (auto simp: executeActions_append split: option.splits prod.splits)
  from p(2) obtain r wi' rs3 where q:
      "executeAction sys (as ! i) (fold (\<lambda>r c. next_path c r) rs1 src) dr md wi = Some (r, wi')"
      "rs2 = r # rs3"
    by (auto split: option.splits prod.splits)
  have l: "length rs1 = i"
    using executeActions_length [OF p(1)] assms(2) by simp
  then have t: "take i rs = rs1" "rs ! i = r" "take (Suc i) rs = rs1 @ [r]"
    using p(3) q(2) by (auto simp: nth_append)
  have "take (Suc i) as = take i as @ [as ! i]"
    using assms(2) by (simp add: take_Suc_conv_app_nth)
  then have "executeActions sys (take (Suc i) as) src dr md w = Some (rs1 @ [r], wi')"
    using p(1) q(1) by (simp add: executeActions_append)
  with p(1) q(1) t show ?thesis by simp
qed

lemma failed_world:
  assumes "executeAction sys a src dr md w = Some (r, w')" "r_status r = Failed"
  shows "w' = snd (loadConfig sys w)
         \<or> (\<exists>d. w' = snd (ensure_directory sys a d dr (snd (loadConfig sys w))))
         \<or> (\<exists>d d'. w' = snd (perform sys a src d'
                              (snd (ensure_directory sys a d dr (snd (loadConfig sys w))))))"
proof -
  obtain x w1 where l: "loadConfig sys w = (x, w1)"
    by (cases "loadConfig sys w")
  show ?thesis
  proof (cases x)
    case (Inl e)
    with l assms(1) show ?thesis by (simp add: executeAction_def)
  next
    case (Inr cfg)
    let ?d = "destination_for a src cfg md (date_now sys w1)"
    obtain y w2 where e: "ensure_directory sys a ?d dr w1 = (y, w2)"
      by (cases "ensure_directory sys a ?d dr w1")
    show ?thesis
    proof (cases y)
      case (Some err)
      with l Inr e assms(1) have "w' = snd (ensure_directory sys a ?d dr (snd (loadConfig sys w)))"
        by (simp add: executeAction_def)
      then show ?thesis by blast
    next
      case None
      show ?thesis
      proof (cases "resolveCollision sys ?d dr w2")
        case None
        with l Inr e \<open>y = None\<close> assms(1) show ?thesis by (simp add: executeAction_def)
      next
        case (Some d')
        show ?thesis
        proof (cases dr)
          case True
          with l Inr e \<open>y = None\<close> Some assms show ?thesis
            by (auto simp: executeAction_def succeeded_def)
        next
          case False
          obtain z w3 where p: "perform sys a src d' w2 = (z, w3)"
            by (cases "perform sys a src d' w2")
          have "w' = w3"
            using l Inr e \<open>y = None\<close> Some False p assms(1)
            by (cases z) (auto simp: executeAction_def)
          then have "w' = snd (perform sys a src d'
                              (snd (ensure_directory sys a ?d dr (snd (loadConfig sys w)))))"
            using l e p by simp
          then show ?thesis by blast
        qed
      qed
    qed
  qed
qed

lemma continue_example:
  "map_option (\<lambda>(rs, w). (map r_status rs, map r_sourcePath rs, map r_destinationPath rs, entries w))
     (executeActions mem_system [compress_to ''/out/small'', move_to ''/out''] ''/in/report.pdf''
        False None (files [''/in/report.pdf'']))
   = Some ([Failed, Success],
           [Some ''/in/report.pdf'', Some ''/in/report.pdf''],
           [None, Some ''/out/report.pdf''],
           [''/out/report.pdf'', ''/out'', ''/out/small'', ''.flowsquire/config.json'',
            ''.flowsquire''])"
  by code_simp

lemma length_chain_inputs: "length (chain_inputs cur rs) = length rs"
  by (induction rs arbitrary: cur) auto

lemma chain_steps:
  assumes "executeActions sys as src dr md w = Some (rs, w')"
      "map r_sourcePath rs = map Some (chain_inputs src rs)" "i < length as"
  shows "\<exists>wi wi'. executeActions sys (take i as) src dr md w = Some (take i rs, wi)
           \<and> executeAction sys (as ! i) (chain_inputs src rs ! i) dr md wi = Some (rs ! i, wi')
           \<and> executeActions sys (take (Suc i) as) src dr md w = Some (take (Suc i) rs, wi')"
proof -
  obtain wi wi' where s:
      "executeActions sys (take i as) src dr md w = Some (take i rs, wi)"
      "executeAction sys (as ! i) (fold (\<lambda>r c. next_path c r) (take i rs) src) dr md wi
         = Some (rs ! i, wi')"
      "executeActions sys (take (Suc i) as) src dr md w = Some (take (Suc i) rs, wi')"
    using executeActions_step [OF assms(1,3)] by blast
  have i: "i < length rs"
    using executeActions_length [OF assms(1)] assms(3) by simp
  have "r_sourcePath (rs ! i) = Some (fold (\<lambda>r c. next_path c r) (take i rs) src)"
    using executeAction_source [OF s(2)] by simp
  moreover have "map r_sourcePath rs ! i = map Some (chain_inputs src rs) ! i"
    using assms(2) by simp
  then have "r_sourcePath (rs ! i) = Some (chain_inputs src rs ! i)"
    using i by (simp add: length_chain_inputs)
  ultimately have "fold (\<lambda>r c. next_path c r) (take i rs) src = chain_inputs src rs ! i"
    by simp
  with s show ?thesis by auto
qed

subsection \<open>The chain and the dry run\<close>

text \<open>
  C1. On a file system with finitely many entries (and in any dry run) \<open>executeActions\<close>
  returns, with exactly one result per action in the declared order. A failed action
  does not stop the chain: whatever the earlier results are, the result at every
  position is the outcome of \<open>executeAction\<close> on the action at that position, run on the
  current path in the world the actions before it have left, and the world after it is
  the one that call has left. The current path is the source path at first, afterwards
  the destination of the most recent successful action; a failure leaves it as it is.
  Nothing is undone after a failure: the world a failed action leaves is that of its
  configuration load, its directory creation or its own failing operation; on the
  in-memory system a failed action removes no entry; in the chain "move, then compress"
  with the compression tool missing the move succeeds, the compression fails with its
  error recorded, and the file stays at the destination of the move; in the chain
  "compress, then move" the move is carried out after the failed compression, on the
  original source path.
\<close>

theorem executeActions_chain:
  "(dr \<or> (\<forall>w. finite {q. fs_access sys q w}) \<longrightarrow>
      (\<exists>rs w'. executeActions sys as src dr md w = Some (rs, w')
         \<and> length rs = length as \<and> map r_action rs = as
         \<and> map r_sourcePath rs = map Some (chain_inputs src rs)
         \<and> (\<forall>r \<in> set rs.
               r_status r = Success \<and> (\<exists>d. r_destinationPath r = Some d \<and> d \<noteq> [])
                 \<and> r_error r = None
               \<or> r_status r = Failed \<and> r_destinationPath r = None \<and> (\<exists>m. r_error r = Some m))
         \<and> (\<forall>i < length as. \<exists>wi wi'.
               executeActions sys (take i as) src dr md w = Some (take i rs, wi)
               \<and> executeAction sys (as ! i) (chain_inputs src rs ! i) dr md wi = Some (rs ! i, wi')
               \<and> executeActions sys (take (Suc i) as) src dr md w = Some (take (Suc i) rs, wi'))))
   \<and> (executeAction mem_system a src dr md v = Some (r, v') \<and> r_status r = Failed
        \<longrightarrow> set (entries v) \<subseteq> set (entries v'))
   \<and> (executeAction sys a src dr md w = Some (r, w1) \<and> r_status r = Failed
        \<longrightarrow> w1 = snd (loadConfig sys w)
            \<or> (\<exists>d. w1 = snd (ensure_directory sys a d dr (snd (loadConfig sys w))))
            \<or> (\<exists>d d'. w1 = snd (perform sys a src d'
                                 (snd (ensure_directory sys a d dr (snd (loadConfig sys w)))))))
   \<and> map_option (\<lambda>(rs, w). (map r_status rs, map r_sourcePath rs, map r_destinationPath rs,
                               map r_error rs, entries w))
        (executeActions mem_system [move_to ''/out'', compress_to ''/out/small'']
           ''/in/report.pdf'' False None (files [''/in/report.pdf'']))
      = Some ([Success, Failed],
              [Some ''/in/report.pdf'', Some ''/out/report.pdf''],
              [Some ''/out/report.pdf'', None],
              [None, Some ''Failed to spawn Ghostscript: spawn gs ENOENT. Please install Ghostscript (brew install ghostscript)''],
              [''/out/small'', ''/out/report.pdf'', ''/out'', ''.flowsquire/config.json'',
               ''.flowsquire''])
   \<and> map_option (\<lambda>(rs, w). (map r_status rs, map r_sourcePath rs, map r_destinationPath rs,
                               entries w))
        (executeActions mem_system [compress_to ''/out/small'', move_to ''/out'']
           ''/in/report.pdf'' False None (files [''/in/report.pdf'']))
      = Some ([Failed, Success],
              [Some ''/in/report.pdf'', Some ''/in/report.pdf''],
              [None, Some ''/out/report.pdf''],
              [''/out/report.pdf'', ''/out'', ''/out/small'', ''.flowsquire/config.json'',
               ''.flowsquire''])"
proof (intro conjI impI)
  show "\<exists>rs w'. executeActions sys as src dr md w = Some (rs, w')
         \<and> length rs = length as \<and> map r_action rs = as
         \<and> map r_sourcePath rs = map Some (chain_inputs src rs)
         \<and> (\<forall>r \<in> set rs.
               r_status r = Success \<and> (\<exists>d. r_destinationPath r = Some d \<and> d \<noteq> [])
                 \<and> r_error r = None
               \<or> r_status r = Failed \<and> r_destinationPath r = None \<and> (\<exists>m. r_error r = Some m))
         \<and> (\<forall>i < length as. \<exists>wi wi'.
               executeActions sys (take i as) src dr md w = Some (take i rs, wi)
               \<and> executeAction sys (as ! i) (chain_inputs src rs ! i) dr md wi = Some (rs ! i, wi')
               \<and> executeActions sys (take (Suc i) as) src dr md w = Some (take (Suc i) rs, wi'))"
    if h: "dr \<or> (\<forall>w. finite {q. fs_access sys q w})"
  proof -
    obtain rs w' where c: "executeActions sys as src dr md w = Some (rs, w')"
        "length rs = length as" "map r_action rs = as"
        "map r_sourcePath rs = map Some (chain_inputs src rs)"
        "\<forall>r \<in> set rs.
               r_status r = Success \<and> (\<exists>d. r_destinationPath r = Some d \<and> d \<noteq> [])
                 \<and> r_error r = None
               \<or> r_status r = Failed \<and> r_destinationPath r = None \<and> (\<exists>m. r_error r = Some m)"
      using chain_of_results [OF h, of as src md w] by blast
    have "\<forall>i < length as. \<exists>wi wi'.
               executeActions sys (take i as) src dr md w = Some (take i rs, wi)
               \<and> executeAction sys (as ! i) (chain_inputs src rs ! i) dr md wi = Some (rs ! i, wi')
               \<and> executeActions sys (take (Suc i) as) src dr md w = Some (take (Suc i) rs, wi')"
      using chain_steps [OF c(1) c(4)] by blast
    with c show ?thesis by blast
  qed
  show "set (entries v) \<subseteq> set (entries v')"
    if "executeAction mem_system a src dr md v = Some (r, v') \<and> r_status r = Failed"
    using that mem_failed_keeps_entries by blast
  show "w1 = snd (loadConfig sys w)
            \<or> (\<exists>d. w1 = snd (ensure_directory sys a d dr (snd (loadConfig sys w))))
            \<or> (\<exists>d d'. w1 = snd (perform sys a src d'
                                 (snd (ensure_directory sys a d dr (snd (loadConfig sys w))))))"
    if "executeAction sys a src dr md w = Some (r, w1) \<and> r_status r = Failed"
    using that failed_world [of sys a src dr md w r w1] by blast
  show "map_option (\<lambda>(rs, w). (map r_status rs, map r_sourcePath rs, map r_destinationPath rs,
                               map r_error rs, entries w))
        (executeActions mem_system [move_to ''/out'', compress_to ''/out/small'']
           ''/in/report.pdf'' False None (files [''/in/report.pdf'']))
      = Some ([Success, Failed],
              [Some ''/in/report.pdf'', Some ''/out/report.pdf''],
              [Some ''/out/report.pdf'', None],
              [None, Some ''Failed to spawn Ghostscript: spawn gs ENOENT. Please install Ghostscript (brew install ghostscript)''],
              [''/out/small'', ''/out/report.pdf'', ''/out'', ''.flowsquire/config.json'',
               ''.flowsquire''])"
    by code_simp
  show "map_option (\<lambda>(rs, w). (map r_status rs, map r_sourcePath rs, map r_destinationPath rs,
                               entries w))
        (executeActions mem_system [compress_to ''/out/small'', move_to ''/out'']
           ''/in/report.pdf'' False None (files [''/in/report.pdf'']))
      = Some ([Failed, Success],
              [Some ''/in/report.pdf'', Some ''/in/report.pdf''],
              [None, Some ''/out/report.pdf''],
              [''/out/report.pdf'', ''/out'', ''/out/small'', ''.flowsquire/config.json'',
               ''.flowsquire''])"
    by (rule continue_example)
qed

theorem executeActions_chain_witness:
  "(\<exists>rs w'. executeActions mem_system [compress_to ''/out/small'', move_to ''/out'']
              ''/in/report.pdf'' False None (files [''/in/report.pdf'']) = Some (rs, w')
     \<and> length rs = 2
     \<and> map r_action rs = [compress_to ''/out/small'', move_to ''/out'']
     \<and> map r_sourcePath rs = map Some (chain_inputs ''/in/report.pdf'' rs)
     \<and> (\<exists>wi wi'. executeAction mem_system (move_to ''/out'') (chain_inputs ''/in/report.pdf'' rs ! 1)
                      False None wi = Some (rs ! 1, wi')))
   \<and> set (entries (files [''/in/report.pdf'']))
       \<subseteq> set (entries (snd (the (executeAction mem_system (compress_to ''/out/small'')
                                   ''/in/report.pdf'' False None (files [''/in/report.pdf''])))))
   \<and> (snd (the (executeAction mem_system (compress_to ''/out/small'')
                    ''/in/report.pdf'' False None (files [''/in/report.pdf''])))
         = snd (loadConfig mem_system (files [''/in/report.pdf'']))
       \<or> (\<exists>d. snd (the (executeAction mem_system (compress_to ''/out/small'')
                    ''/in/report.pdf'' False None (files [''/in/report.pdf''])))
             = snd (ensure_directory mem_system (compress_to ''/out/small'') d False
                      (snd (loadConfig mem_system (files [''/in/report.pdf''])))))
       \<or> (\<exists>d d'. snd (the (executeAction mem_system (compress_to ''/out/small'')
                    ''/in/report.pdf'' False None (files [''/in/report.pdf''])))
             = snd (perform mem_system (compress_to ''/out/small'') ''/in/report.pdf'' d'
                      (snd (ensure_directory mem_system (compress_to ''/out/small'') d False
                              (snd (loadConfig mem_system (files [''/in/report.pdf''])))))))) "
proof -
  let ?x = "executeAction mem_system (compress_to ''/out/small'') ''/in/report.pdf'' False None
              (files [''/in/report.pdf''])"
  let ?as = "[compress_to ''/out/small'', move_to ''/out'']"
  have h: "False \<or> (\<forall>w. finite {q. fs_access mem_system q w})"
    by (simp add: mem_system_def)
  have g: "?x = Some (fst (the ?x), snd (the ?x)) \<and> r_status (fst (the ?x)) = Failed"
    by code_simp
  obtain rs w' where c: "executeActions mem_system ?as ''/in/report.pdf'' False None
         (files [''/in/report.pdf'']) = Some (rs, w')"
      "length rs = length ?as" "map r_action rs = ?as"
      "map r_sourcePath rs = map Some (chain_inputs ''/in/report.pdf'' rs)"
      "\<forall>i < length ?as. \<exists>wi wi'.
          executeActions mem_system (take i ?as) ''/in/report.pdf'' False None
            (files [''/in/report.pdf'']) = Some (take i rs, wi)
          \<and> executeAction mem_system (?as ! i) (chain_inputs ''/in/report.pdf'' rs ! i) False None wi
              = Some (rs ! i, wi')
          \<and> executeActions mem_system (take (Suc i) ?as) ''/in/report.pdf'' False None
              (files [''/in/report.pdf'']) = Some (take (Suc i) rs, wi')"
    using mp [OF conjunct1 [OF executeActions_chain
        [of False mem_system ?as "''/in/report.pdf''" None "files [''/in/report.pdf'']"]] h]
    by (elim exE conjE) (rule that)
  have "(1::nat) < length ?as" by simp
  with c(5) obtain wi wi' where
      "executeAction mem_system (?as ! 1) (chain_inputs ''/in/report.pdf'' rs ! 1) False None wi
         = Some (rs ! 1, wi')"
    by blast
  then have s: "\<exists>wi wi'. executeAction mem_system (move_to ''/out'')
        (chain_inputs ''/in/report.pdf'' rs ! 1) False None wi = Some (rs ! 1, wi')"
    by auto
  have first: "\<exists>rs w'. executeActions mem_system ?as ''/in/report.pdf'' False None
         (files [''/in/report.pdf'']) = Some (rs, w')
     \<and> length rs = 2
     \<and> map r_action rs = ?as
     \<and> map r_sourcePath rs = map Some (chain_inputs ''/in/report.pdf'' rs)
     \<and> (\<exists>wi wi'. executeAction mem_system (move_to ''/out'') (chain_inputs ''/in/report.pdf'' rs ! 1)
                      False None wi = Some (rs ! 1, wi'))"
    using c(1,2,3,4) s by auto
  have second: "set (entries (files [''/in/report.pdf''])) \<subseteq> set (entries (snd (the ?x)))"
    by (rule mp [OF conjunct1 [OF conjunct2 [OF executeActions_chain]] g])
  have third: "snd (the ?x) = snd (loadConfig mem_system (files [''/in/report.pdf'']))
       \<or> (\<exists>d. snd (the ?x)
             = snd (ensure_directory mem_system (compress_to ''/out/small'') d False
                      (snd (loadConfig mem_system (files [''/in/report.pdf''])))))
       \<or> (\<exists>d d'. snd (the ?x)
             = snd (perform mem_system (compress_to ''/out/small'') ''/in/report.pdf'' d'
                      (snd (ensure_directory mem_system (compress_to ''/out/small'') d False
                              (snd (loadConfig mem_system (files [''/in/report.pdf'']))))))) "
    by (rule mp [OF conjunct1 [OF conjunct2 [OF conjunct2 [OF executeActions_chain]]] g])
  from first second third show ?thesis by (intro conjI)
qed

text \<open>
  C2 (as stated). A dry run performs no file-system mutation, in particular creates no
  directory. This fails: every action loads the configuration, which creates the
  configuration directory and, when no configuration can be read, writes the default
  configuration file.
\<close>

theorem dry_run_touches_config:
  "map_option (entries \<circ> snd)
     (executeActions mem_system [move_to ''/out''] ''/in/report.pdf'' True None
        (files [''/in/report.pdf'']))
   = Some [''.flowsquire/config.json'', ''.flowsquire'', ''/in/report.pdf'']
   \<and> entries (files [''/in/report.pdf'']) = [''/in/report.pdf'']"
  by code_simp

text \<open>
  C2 (amended). A dry run always returns, with one result per action in order: the
  destination computed by the resolution pipeline (collisions are not probed), or the
  failure to load the configuration. It never asks whether a path exists, creates no
  directory other than the configuration directory, and does not rename, copy or spawn
  a process: the outcome is the same whatever these primitives would do. The world
  changes only through the loading of the configuration, once per action; where
  loading the configuration leaves the world as it is, so does the dry run.
\<close>

theorem executeActions_dry_run:
  "executeActions sys as src True md w
     = Some (dry_run_results sys as src md w, config_loads sys (length as) w)
   \<and> length (dry_run_results sys as src md w) = length as
   \<and> map r_action (dry_run_results sys as src md w) = as
   \<and> executeActions
        (sys\<lparr>fs_access := ac, fs_rename := rn, fs_copyFile := cp, spawn := sp,
             fs_mkdir := (\<lambda>p. if p = DB_DIR then fs_mkdir sys p else mk p)\<rparr>)
        as src True md w
      = executeActions sys as src True md w
   \<and> (snd (loadConfig sys w) = w \<longrightarrow>
        executeActions sys as src True md w = Some (dry_run_results sys as src md w, w))"
proof (intro conjI impI)
  show "executeActions sys as src True md w
     = Some (dry_run_results sys as src md w, config_loads sys (length as) w)"
    by (rule executeActions_dry)
  show "length (dry_run_results sys as src md w) = length as"
    by (rule length_dry_run_results)
  show "map r_action (dry_run_results sys as src md w) = as"
    by (rule actions_dry_run_results)
  show "executeActions
        (sys\<lparr>fs_access := ac, fs_rename := rn, fs_copyFile := cp, spawn := sp,
             fs_mkdir := (\<lambda>p. if p = DB_DIR then fs_mkdir sys p else mk p)\<rparr>)
        as src True md w
      = executeActions sys as src True md w"
    by (simp only: executeActions_dry dry_run_results_unused_primitives
          config_loads_unused_primitives)
  show "executeActions sys as src True md w = Some (dry_run_results sys as src md w, w)"
    if "snd (loadConfig sys w) = w"
    using that by (simp add: executeActions_dry config_loads_fixed)
qed

theorem executeActions_dry_run_witness:
  "map_option snd
     (executeActions mem_system [move_to ''/out'', compress_to ''/out/small''] ''/in/report.pdf''
        True None
        ((files [''.flowsquire/config.json'', ''.flowsquire'', ''/in/report.pdf''])
           \<lparr>config_paths := Some []\<rparr>))
   = Some ((files [''.flowsquire/config.json'', ''.flowsquire'', ''/in/report.pdf''])
           \<lparr>config_paths := Some []\<rparr>)"
proof -
  let ?w = "(files [''.flowsquire/config.json'', ''.flowsquire'', ''/in/report.pdf''])
           \<lparr>config_paths := Some []\<rparr>"
  have c: "CONFIG_FILE = ''.flowsquire/config.json''"
    by (simp add: CONFIG_FILE_def DB_DIR_def join_def normalize_def normalizeString_def
          norm_step_def sep_def)
  have h: "snd (loadConfig mem_system ?w) = ?w"
    by (simp add: loadConfig_def ensureDbDir_def mem_system_def files_def c DB_DIR_def Let_def)
  from mp [OF conjunct2 [OF conjunct2 [OF conjunct2 [OF conjunct2 [OF executeActions_dry_run
        [of mem_system "[move_to ''/out'', compress_to ''/out/small'']" "''/in/report.pdf''"
            None ?w]]]]] h]
  show ?thesis by simp
qed

end
